theory Spec2Isabelle
  imports Main
begin

section \<open>Python strings\<close>

text \<open>
  A Python \<open>str\<close> is a sequence of Unicode code points, so a string is a list of
  code points here. \<open>ascii\<close> reads an ASCII literal.
\<close>

type_synonym pystr = "nat list"

definition ascii :: "string \<Rightarrow> pystr" where
  "ascii s = map of_char s"

definition comma :: nat where
  "comma = 44"

definition colon :: nat where
  "colon = 58"

text \<open>
  \<open>str.isspace\<close> for one code point, as \<open>str.strip()\<close> with no argument uses it:
  the ASCII controls \<open>0x09..0x0D\<close> and \<open>0x1C..0x1F\<close>, the space, and the Unicode
  white space \<open>0x85\<close>, \<open>0xA0\<close>, \<open>0x1680\<close>, \<open>0x2000..0x200A\<close>, \<open>0x2028\<close>,
  \<open>0x2029\<close>, \<open>0x202F\<close>, \<open>0x205F\<close>, \<open>0x3000\<close>.
\<close>

definition py_isspace :: "nat \<Rightarrow> bool" where
  "py_isspace c \<longleftrightarrow>
     (9 \<le> c \<and> c \<le> 13) \<or> (28 \<le> c \<and> c \<le> 32) \<or> c = 133 \<or> c = 160 \<or> c = 5760 \<or>
     (8192 \<le> c \<and> c \<le> 8202) \<or> c = 8232 \<or> c = 8233 \<or> c = 8239 \<or> c = 8287 \<or>
     c = 12288"

definition py_strip :: "pystr \<Rightarrow> pystr" where
  "py_strip s = rev (dropWhile py_isspace (rev (dropWhile py_isspace s)))"

text \<open>\<open>s.split(sep)\<close> for a one-character separator: always at least one token.\<close>

function py_split :: "nat \<Rightarrow> pystr \<Rightarrow> pystr list" where
  "py_split sep s =
     (case dropWhile (\<lambda>c. c \<noteq> sep) s of
        [] \<Rightarrow> [s]
      | _ # rest \<Rightarrow> takeWhile (\<lambda>c. c \<noteq> sep) s # py_split sep rest)"
  by pat_completeness auto
termination
proof (relation "measure (\<lambda>(sep, s). length s)")
  show "wf (measure (\<lambda>(sep, s). length s))"
    by simp
next
  fix sep :: nat and s :: pystr and x rest
  assume "dropWhile (\<lambda>c. c \<noteq> sep) s = x # rest"
  then have "length rest < length (dropWhile (\<lambda>c. c \<noteq> sep) s)"
    by simp
  also have "\<dots> \<le> length s"
    by (rule length_dropWhile_le)
  finally show "((sep, rest), (sep, s)) \<in> measure (\<lambda>(sep, s). length s)"
    by simp
qed

declare py_split.simps [simp del]

text \<open>\<open>s.split(sep, 1)\<close>: at most one split, at the first separator.\<close>

definition py_split1 :: "nat \<Rightarrow> pystr \<Rightarrow> pystr list" where
  "py_split1 sep s =
     (case dropWhile (\<lambda>c. c \<noteq> sep) s of
        [] \<Rightarrow> [s]
      | _ # rest \<Rightarrow> [takeWhile (\<lambda>c. c \<noteq> sep) s, rest])"

text \<open>\<open>sep.join(ts)\<close>.\<close>

fun py_join :: "pystr \<Rightarrow> pystr list \<Rightarrow> pystr" where
  "py_join sep [] = []"
| "py_join sep [t] = t"
| "py_join sep (t # u # ts) = t @ sep @ py_join sep (u # ts)"

datatype py_error = KeyError | ValueError | BadLiveTime

section \<open>The room registry\<close>

record room_config =
  room_id :: pystr
  group_id :: pystr

text \<open>
  \<open>parse_room_configs\<close>: the loop over the tokens of \<open>room_configs.split(',')\<close>,
  with \<open>rooms\<close> the list built so far. Unpacking \<open>config.split(':', 1)\<close> into two
  names raises \<open>ValueError\<close> unless the list has two elements. A token without
  the separator is logged and skipped.
\<close>

fun parse_loop :: "pystr list \<Rightarrow> room_config list \<Rightarrow> py_error + room_config list" where
  "parse_loop [] rooms = Inr rooms"
| "parse_loop (config # configs) rooms =
     (if colon \<in> set config then
        (case py_split1 colon config of
           [r, g] \<Rightarrow>
             parse_loop configs (rooms @ [\<lparr>room_id = py_strip r, group_id = py_strip g\<rparr>])
         | _ \<Rightarrow> Inl ValueError)
      else parse_loop configs rooms)"

definition parse_room_configs :: "pystr \<Rightarrow> py_error + room_config list" where
  "parse_room_configs room_configs = parse_loop (py_split comma room_configs) []"

section \<open>String constants of the messages\<close>

text \<open>Each constant is the literal of the source, code point by code point.\<close>

definition default_anchor_prefix :: pystr where
  \<comment> \<open>the two characters before \<open>{room_id}\<close> in the default anchor name\<close>
  "default_anchor_prefix = [20027, 25773]"

definition live_started_text :: pystr where
  \<comment> \<open>between \<open>{anchor_name}\<close> and \<open>{room_id}\<close> in the message of a start\<close>
  "live_started_text =
     [32, 24320, 25773, 20102, 65281, 10, 20256, 36865, 38376, 65306]
     @ ascii ''https://live.bilibili.com/''"

definition live_ended_text :: pystr where
  \<comment> \<open>after \<open>{anchor_name}\<close> in the message of an end\<close>
  "live_ended_text = [32, 30340, 30452, 25773, 24050, 32467, 26463, 12290]"

definition unavailable_prefix :: pystr where
  "unavailable_prefix = [30452, 25773, 38388, 32]"

definition unavailable_suffix :: pystr where
  "unavailable_suffix = [65306, 26080, 27861, 33719, 21462, 30452, 25773, 20449, 24687]"

definition info_anchor_label :: pystr where
  "info_anchor_label = [20027, 25773, 58, 32]"

definition info_room_label :: pystr where
  "info_room_label = [10, 30452, 25773, 38388, 73, 68, 58, 32]"

definition info_status_label :: pystr where
  "info_status_label = [10, 29366, 24577, 58, 32]"

definition text_live :: pystr where
  "text_live = [30452, 25773, 20013]"

definition text_not_live :: pystr where
  "text_not_live = [26410, 24320, 25773]"

definition info_start_label :: pystr where
  "info_start_label = [24320, 25773, 26102, 38388, 58, 32]"

definition info_duration_label :: pystr where
  "info_duration_label = [30452, 25773, 26102, 38271, 58, 32]"

definition info_start_unknown :: pystr where
  "info_start_unknown = [24320, 25773, 26102, 38388, 58, 32, 26410, 30693, 10]"

definition info_last_check_label :: pystr where
  "info_last_check_label = [26368, 21518, 26816, 26597, 26102, 38388, 58, 32]"

definition info_link_label :: pystr where
  "info_link_label = [30452, 25773, 38388, 38142, 25509, 58, 32, 38142, 25509, 49]"

definition report_header :: pystr where
  \<comment> \<open>the title line, the empty line and the twenty \<open>=\<close>\<close>
  "report_header = [30452, 25773, 38388, 29366, 24577, 10] @ [10] @ replicate 20 61"

definition no_rooms_text :: pystr where
  "no_rooms_text =
     [35813, 32676, 27809, 26377, 37197, 32622, 30417, 25511, 30340, 30452, 25773, 38388]"

definition liveinfo :: pystr where
  "liveinfo = ascii ''liveinfo''"

text \<open>
  \<open>str.lower()\<close> on the ASCII letters. The other code points are left as they
  are: no code point outside ASCII has a lower case made of the letters of
  \<open>liveinfo\<close> only, so the comparison with that word is the one Python makes.
\<close>

definition py_lower :: "pystr \<Rightarrow> pystr" where
  "py_lower s = map (\<lambda>c. if 65 \<le> c \<and> c \<le> 90 then c + 32 else c) s"

section \<open>State of the plugin\<close>

text \<open>
  \<open>'t\<close> is the type of \<open>datetime\<close> values. A queued notification is the dict
  \<open>{'message', 'group_id'}\<close>, its key \<open>'group_id'\<close> being the field \<open>target\<close>
  here (the name \<open>group_id\<close> is the field of \<open>room_config\<close>); a room's entry of
  \<open>room_status\<close> has the three keys set at creation and the key
  \<open>'notifications'\<close>, absent (\<open>None\<close>) until the first notification. \<open>room_status\<close> is a dict iterated in insertion
  order, hence an association list; \<open>anchor_names\<close> is only looked up.
\<close>

record notification =
  message :: pystr
  target :: pystr

record 't room_info =
  last_status :: "int option"
  live_start_time :: "'t option"
  last_check_time :: "'t option"
  notifications :: "notification list option"

record 't state =
  room_status :: "(pystr \<times> 't room_info) list"
  anchor_names :: "pystr \<rightharpoonup> pystr"

definition initial_state :: "'t state" where
  "initial_state = \<lparr>room_status = [], anchor_names = Map.empty\<rparr>"

definition new_room_info :: "'t room_info" where
  "new_room_info =
     \<lparr>last_status = None, live_start_time = None, last_check_time = None,
      notifications = None\<rparr>"

text \<open>\<open>d[k] = v\<close>: in place when the key exists, at the end otherwise.\<close>

fun dict_set :: "'k \<Rightarrow> 'v \<Rightarrow> ('k \<times> 'v) list \<Rightarrow> ('k \<times> 'v) list" where
  "dict_set k v [] = [(k, v)]"
| "dict_set k v ((k', v') # d) =
     (if k' = k then (k, v) # d else (k', v') # dict_set k v d)"

definition put_room :: "pystr \<Rightarrow> 't room_info \<Rightarrow> 't state \<Rightarrow> 't state" where
  "put_room rid info st = st\<lparr>room_status := dict_set rid info (room_status st)\<rparr>"

section \<open>The two requests\<close>

text \<open>
  The payload \<open>data['data']\<close> of the status answer. \<open>live_status\<close> is \<open>None\<close>
  when the key is missing (\<open>KeyError\<close>); \<open>live_time\<close> is the value of
  \<open>datetime.fromtimestamp(data['live_time'])\<close>, \<open>None\<close> when that expression
  raises (\<open>BadLiveTime\<close>). The source evaluates it only when the status is 1.
\<close>

record 't payload =
  live_status :: "int option"
  live_time :: "'t option"

datatype 't status_response =
  StatusFailed
| StatusJson "int option" "'t payload option"

datatype anchor_response =
  AnchorFailed
| AnchorJson "int option" "pystr option"

record 't check_result =
  res_room_id :: pystr
  res_data :: "'t payload"
  res_timestamp :: 't

definition check_live_status ::
  "pystr \<Rightarrow> 't status_response \<Rightarrow> 't \<Rightarrow> 't check_result option" where
  "check_live_status rid resp now =
     (case resp of
        StatusFailed \<Rightarrow> None
      | StatusJson code d \<Rightarrow>
          if code = Some 0 then
            (case d of
               None \<Rightarrow> None
             | Some p \<Rightarrow> Some \<lparr>res_room_id = rid, res_data = p, res_timestamp = now\<rparr>)
          else None)"

definition default_anchor_name :: "pystr \<Rightarrow> pystr" where
  "default_anchor_name rid = default_anchor_prefix @ rid"

text \<open>
  \<open>get_anchor_info\<close> sends its request on every call: the answer is an argument.
  Only a fetched name is written to \<open>anchor_names\<close>.
\<close>

definition get_anchor_info ::
  "anchor_response \<Rightarrow> pystr \<Rightarrow> 't state \<Rightarrow> pystr \<times> 't state" where
  "get_anchor_info resp rid st =
     (case resp of
        AnchorFailed \<Rightarrow> (default_anchor_name rid, st)
      | AnchorJson code uname \<Rightarrow>
          if code = Some 0 then
            (case uname of
               None \<Rightarrow> (default_anchor_name rid, st)
             | Some anchor_name \<Rightarrow>
                 (anchor_name, st\<lparr>anchor_names := (anchor_names st)(rid \<mapsto> anchor_name)\<rparr>))
          else (default_anchor_name rid, st))"

section \<open>The monitoring loop\<close>

text \<open>
  What the body of the \<open>for\<close> loop leaves for one result: the state, the message
  of a status change when the body reached the log line of a change, and the
  exception that left the body, if any (the \<open>except\<close> around the loop then ends
  the cycle).
\<close>

record 't outcome =
  out_state :: "'t state"
  out_event :: "pystr option"
  out_raised :: "py_error option"

text \<open>
  An element of the list \<open>gather\<close> returns: an exception object or the value
  \<open>check_live_status\<close> returned.
\<close>

datatype 't gathered =
  Raised
| Returned "'t check_result option"

text \<open>The search for \<open>target_group\<close>: the first entry of the room, then \<open>break\<close>.\<close>

fun find_target_group :: "room_config list \<Rightarrow> pystr \<Rightarrow> pystr option" where
  "find_target_group [] rid = None"
| "find_target_group (room_config # rest) rid =
     (if room_id room_config = rid then Some (group_id room_config)
      else find_target_group rest rid)"

text \<open>\<open>if target_group:\<close> \<open>None\<close> and the empty string are false.\<close>

definition enqueue_notification ::
  "pystr option \<Rightarrow> pystr \<Rightarrow> 't room_info \<Rightarrow> 't room_info" where
  "enqueue_notification target_group msg info =
     (case target_group of
        None \<Rightarrow> info
      | Some g \<Rightarrow>
          if g = [] then info
          else info\<lparr>notifications :=
                 Some ((case notifications info of None \<Rightarrow> [] | Some ns \<Rightarrow> ns)
                       @ [\<lparr>message = msg, target = g\<rparr>])\<rparr>)"

text \<open>The branch of the first check (\<open>last_status is None\<close>).\<close>

definition first_check ::
  "pystr \<Rightarrow> 't room_info \<Rightarrow> int \<Rightarrow> 't payload \<Rightarrow> 't \<Rightarrow> 't state \<Rightarrow> 't outcome" where
  "first_check rid info current_status data stamp st =
     (let info1 = info\<lparr>last_status := Some current_status\<rparr> in
      if current_status = 1 then
        (case live_time data of
           None \<Rightarrow>
             \<lparr>out_state = put_room rid info1 st, out_event = None,
              out_raised = Some BadLiveTime\<rparr>
         | Some t \<Rightarrow>
             \<lparr>out_state =
                put_room rid
                  (info1\<lparr>live_start_time := Some t, last_check_time := Some stamp\<rparr>) st,
              out_event = None, out_raised = None\<rparr>)
      else
        \<lparr>out_state = put_room rid (info1\<lparr>last_check_time := Some stamp\<rparr>) st,
         out_event = None, out_raised = None\<rparr>)"

text \<open>
  The end of the branch of a change, once \<open>live_start_time\<close> is written and the
  message built: the new status, the notification, the check time.
\<close>

definition finish_change ::
  "room_config list \<Rightarrow> pystr \<Rightarrow> 't room_info \<Rightarrow> int \<Rightarrow> pystr \<Rightarrow> 't \<Rightarrow> 't state \<Rightarrow>
   't outcome" where
  "finish_change monitor_rooms rid info current_status msg stamp st =
     (let info1 = info\<lparr>last_status := Some current_status\<rparr>;
          info2 = enqueue_notification (find_target_group monitor_rooms rid) msg info1
      in \<lparr>out_state = put_room rid (info2\<lparr>last_check_time := Some stamp\<rparr>) st,
          out_event = Some msg, out_raised = None\<rparr>)"

text \<open>The branch of a change (\<open>current_status != room_info['last_status']\<close>).\<close>

definition status_changed ::
  "room_config list \<Rightarrow> anchor_response \<Rightarrow> pystr \<Rightarrow> 't room_info \<Rightarrow> int \<Rightarrow> 't payload \<Rightarrow>
   't \<Rightarrow> 't state \<Rightarrow> 't outcome" where
  "status_changed monitor_rooms aresp rid info current_status data stamp st =
     (case get_anchor_info aresp rid st of
        (anchor_name, st1) \<Rightarrow>
          if current_status = 1 then
            (case live_time data of
               None \<Rightarrow> \<lparr>out_state = st1, out_event = None, out_raised = Some BadLiveTime\<rparr>
             | Some t \<Rightarrow>
                 finish_change monitor_rooms rid (info\<lparr>live_start_time := Some t\<rparr>)
                   current_status (anchor_name @ live_started_text @ rid) stamp st1)
          else
            finish_change monitor_rooms rid (info\<lparr>live_start_time := None\<rparr>)
              current_status (anchor_name @ live_ended_text) stamp st1)"

text \<open>
  The body of \<open>for i, result in enumerate(results)\<close>. The answer to the
  anchor request is \<open>aresp\<close>; it is used only in the branch of a change.
  The body is one step: what another coroutine does while the body awaits the
  anchor request is not part of this model.
\<close>

definition process_result ::
  "room_config list \<Rightarrow> anchor_response \<Rightarrow> 't gathered \<Rightarrow> 't state \<Rightarrow> 't outcome" where
  "process_result monitor_rooms aresp result st =
     (case result of
        Raised \<Rightarrow> \<lparr>out_state = st, out_event = None, out_raised = None\<rparr>
      | Returned None \<Rightarrow> \<lparr>out_state = st, out_event = None, out_raised = None\<rparr>
      | Returned (Some res) \<Rightarrow>
          (let rid = res_room_id res; data = res_data res in
           case live_status data of
             None \<Rightarrow> \<lparr>out_state = st, out_event = None, out_raised = Some KeyError\<rparr>
           | Some current_status \<Rightarrow>
               (let info = (case map_of (room_status st) rid of
                              None \<Rightarrow> new_room_info
                            | Some i \<Rightarrow> i);
                    st1 = put_room rid info st
                in if last_status info = None then
                     first_check rid info current_status data (res_timestamp res) st1
                   else if Some current_status \<noteq> last_status info then
                     status_changed monitor_rooms aresp rid info current_status data
                       (res_timestamp res) st1
                   else
                     \<lparr>out_state =
                        put_room rid (info\<lparr>last_check_time := Some (res_timestamp res)\<rparr>) st1,
                      out_event = None, out_raised = None\<rparr>)))"

text \<open>
  The \<open>for\<close> loop inside \<open>try\<close>: an exception ends the cycle and keeps what the
  body had written. The result is the state and the messages of the changes.
\<close>

fun process_results ::
  "room_config list \<Rightarrow> (anchor_response \<times> 't gathered) list \<Rightarrow> 't state \<Rightarrow>
   't state \<times> pystr list" where
  "process_results monitor_rooms [] st = (st, [])"
| "process_results monitor_rooms ((aresp, result) # rest) st =
     (let out = process_result monitor_rooms aresp result st in
      case out_raised out of
        Some e \<Rightarrow> (out_state out, [])
      | None \<Rightarrow>
          (case process_results monitor_rooms rest (out_state out) of
             (st', events) \<Rightarrow>
               (st', (case out_event out of None \<Rightarrow> events | Some m \<Rightarrow> m # events))))"

text \<open>
  One turn of \<open>while True\<close>. For each entry of \<open>monitor_rooms\<close> the world gives
  the answer to the status request, the time of the check and the answer to
  the anchor request.
\<close>

record 't poll =
  poll_status :: "'t status_response"
  poll_now :: 't
  poll_anchor :: anchor_response

text \<open>
  \<open>results\<close>: \<open>check_live_status\<close> catches every exception, so \<open>gather\<close> returns
  the value of each call.
\<close>

definition cycle_items ::
  "room_config list \<Rightarrow> 't poll list \<Rightarrow> (anchor_response \<times> 't gathered) list" where
  "cycle_items monitor_rooms polls =
     map (\<lambda>(room, p).
            (poll_anchor p,
             Returned (check_live_status (room_id room) (poll_status p) (poll_now p))))
       (zip monitor_rooms polls)"

definition monitor_cycle ::
  "room_config list \<Rightarrow> 't poll list \<Rightarrow> 't state \<Rightarrow> 't state \<times> pystr list" where
  "monitor_cycle monitor_rooms polls st =
     process_results monitor_rooms (cycle_items monitor_rooms polls) st"

section \<open>The snapshot and the handler of group messages\<close>

text \<open>
  \<open>get_live_info\<close>. \<open>strftime\<close> is \<open>strftime('%Y-%m-%d %H:%M:%S')\<close> and
  \<open>duration_text now t\<close> is the text of the hours, minutes and seconds of
  \<open>now - t\<close>: both belong to the \<open>datetime\<close> library and are parameters.
\<close>

definition unavailable_report :: "pystr \<Rightarrow> pystr" where
  "unavailable_report rid = unavailable_prefix @ rid @ unavailable_suffix"

definition get_live_info ::
  "('t \<Rightarrow> pystr) \<Rightarrow> ('t \<Rightarrow> 't \<Rightarrow> pystr) \<Rightarrow> 't state \<Rightarrow> pystr \<Rightarrow> 't status_response \<Rightarrow> 't \<Rightarrow>
   py_error + pystr" where
  "get_live_info strftime duration_text st rid resp now =
     (case check_live_status rid resp now of
        None \<Rightarrow> Inr (unavailable_report rid)
      | Some result \<Rightarrow>
          (let data = res_data result;
               anchor_name = (case anchor_names st rid of
                                Some n \<Rightarrow> n
                              | None \<Rightarrow> default_anchor_name rid)
           in case live_status data of
                None \<Rightarrow> Inl KeyError
              | Some ls \<Rightarrow>
                  (let status_text = (if ls = 1 then text_live else text_not_live);
                       info = info_anchor_label @ anchor_name @ info_room_label @ rid
                              @ info_status_label @ status_text @ [10];
                       room_info = map_of (room_status st) rid;
                       info1 =
                         (if ls = 1 then
                            (case Option.bind room_info live_start_time of
                               Some t \<Rightarrow>
                                 info @ info_start_label @ strftime t @ [10]
                                 @ info_duration_label @ duration_text now t @ [10]
                             | None \<Rightarrow> info @ info_start_unknown)
                          else info);
                       info2 =
                         (case Option.bind room_info last_check_time of
                            Some t \<Rightarrow> info1 @ info_last_check_label @ strftime t @ [10]
                          | None \<Rightarrow> info1)
                   in Inr (info2 @ info_link_label @ rid))))"

text \<open>
  \<open>list.remove(x)\<close>: the first element equal to \<open>x\<close> goes, \<open>ValueError\<close> when
  there is none.
\<close>

definition py_remove :: "'a \<Rightarrow> 'a list \<Rightarrow> py_error + 'a list" where
  "py_remove x xs = (if x \<in> set xs then Inr (remove1 x xs) else Inl ValueError)"

text \<open>
  The inner loop of the handler, over the copy \<open>room_info['notifications'][:]\<close>:
  \<open>current\<close> is the list being emptied, \<open>to_send\<close> is \<open>notifications_to_send\<close>.
\<close>

fun drain_room ::
  "pystr \<Rightarrow> notification list \<Rightarrow> notification list \<Rightarrow> pystr list \<Rightarrow>
   py_error + (notification list \<times> pystr list)" where
  "drain_room g [] current to_send = Inr (current, to_send)"
| "drain_room g (n # copy) current to_send =
     (if target n = g then
        (case py_remove n current of
           Inl e \<Rightarrow> Inl e
         | Inr current' \<Rightarrow> drain_room g copy current' (to_send @ [message n]))
      else drain_room g copy current to_send)"

text \<open>The outer loop, over \<open>room_status.items()\<close> in the order of the dict.\<close>

fun drain_rooms ::
  "pystr \<Rightarrow> (pystr \<times> 't room_info) list \<Rightarrow> pystr list \<Rightarrow>
   py_error + ((pystr \<times> 't room_info) list \<times> pystr list)" where
  "drain_rooms g [] to_send = Inr ([], to_send)"
| "drain_rooms g ((rid, info) # rest) to_send =
     (case notifications info of
        None \<Rightarrow>
          (case drain_rooms g rest to_send of
             Inl e \<Rightarrow> Inl e
           | Inr (rest', sent) \<Rightarrow> Inr ((rid, info) # rest', sent))
      | Some ns \<Rightarrow>
          (case drain_room g ns ns to_send of
             Inl e \<Rightarrow> Inl e
           | Inr (ns', to_send') \<Rightarrow>
               (case drain_rooms g rest to_send' of
                  Inl e \<Rightarrow> Inl e
                | Inr (rest', sent) \<Rightarrow>
                    Inr ((rid, info\<lparr>notifications := Some ns'\<rparr>) # rest', sent))))"

definition drain :: "pystr \<Rightarrow> 't state \<Rightarrow> py_error + (pystr list \<times> 't state)" where
  "drain g st =
     (case drain_rooms g (room_status st) [] of
        Inl e \<Rightarrow> Inl e
      | Inr (rs, sent) \<Rightarrow> Inr (sent, st\<lparr>room_status := rs\<rparr>))"

text \<open>The loop that fills \<open>info_lines\<close>; \<open>fetch\<close> answers the status requests.\<close>

fun collect_info ::
  "('t \<Rightarrow> pystr) \<Rightarrow> ('t \<Rightarrow> 't \<Rightarrow> pystr) \<Rightarrow> 't state \<Rightarrow> (pystr \<Rightarrow> 't status_response) \<Rightarrow> 't \<Rightarrow>
   pystr \<Rightarrow> room_config list \<Rightarrow> pystr list \<Rightarrow> py_error + pystr list" where
  "collect_info strftime duration_text st fetch now g [] info_lines = Inr info_lines"
| "collect_info strftime duration_text st fetch now g (room_config # rest) info_lines =
     (if group_id room_config = g then
        (case get_live_info strftime duration_text st (room_id room_config)
                (fetch (room_id room_config)) now of
           Inl e \<Rightarrow> Inl e
         | Inr room_info \<Rightarrow>
             collect_info strftime duration_text st fetch now g rest
               (info_lines @ [room_info]))
      else collect_info strftime duration_text st fetch now g rest info_lines)"

text \<open>
  What one call of the handler leaves: the results it yielded, in order, the
  exception that ended it, if any, and the state.
\<close>

record 't handled =
  replies :: "pystr list"
  raised :: "py_error option"
  state_after :: "'t state"

definition on_group_message ::
  "('t \<Rightarrow> pystr) \<Rightarrow> ('t \<Rightarrow> 't \<Rightarrow> pystr) \<Rightarrow> room_config list \<Rightarrow> (pystr \<Rightarrow> 't status_response) \<Rightarrow>
   't \<Rightarrow> pystr \<Rightarrow> pystr \<Rightarrow> 't state \<Rightarrow> 't handled" where
  "on_group_message strftime duration_text monitor_rooms fetch now g text st =
     (let message_str = py_lower (py_strip text) in
      case drain g st of
        Inl e \<Rightarrow> \<lparr>replies = [], raised = Some e, state_after = st\<rparr>
      | Inr (sent, st1) \<Rightarrow>
          if message_str = liveinfo then
            (case collect_info strftime duration_text st1 fetch now g monitor_rooms [] of
               Inl e \<Rightarrow> \<lparr>replies = sent, raised = Some e, state_after = st1\<rparr>
             | Inr info_lines \<Rightarrow>
                 if info_lines \<noteq> [] then
                   \<lparr>replies = sent @ [report_header @ py_join [10] info_lines],
                    raised = None, state_after = st1\<rparr>
                 else
                   \<lparr>replies = sent @ [no_rooms_text], raised = None, state_after = st1\<rparr>)
          else \<lparr>replies = sent, raised = None, state_after = st1\<rparr>)"

section \<open>Notions of the specification\<close>

text \<open>The notifications a room holds: none while the key is absent.\<close>

definition pending :: "'t room_info \<Rightarrow> notification list" where
  "pending info = (case notifications info of None \<Rightarrow> [] | Some ns \<Rightarrow> ns)"

text \<open>The status stored for a room, if the room has an entry and a status.\<close>

definition stored_status :: "'t state \<Rightarrow> pystr \<Rightarrow> int option" where
  "stored_status st rid = Option.bind (map_of (room_status st) rid) last_status"

text \<open>
  A successful sample carries a status and, when that status is 1, a start
  time that \<open>datetime.fromtimestamp\<close> accepts.
\<close>

definition successful_sample :: "'t check_result \<Rightarrow> bool" where
  "successful_sample res =
     (case live_status (res_data res) of
        None \<Rightarrow> False
      | Some s \<Rightarrow> s = 1 \<longrightarrow> live_time (res_data res) \<noteq> None)"

text \<open>The start time is there exactly when the stored status is 1.\<close>

definition start_time_consistent :: "'t room_info \<Rightarrow> bool" where
  "start_time_consistent info \<longleftrightarrow>
     (live_start_time info \<noteq> None \<longleftrightarrow> last_status info = Some 1)"

text \<open>The status of the specification: 1 is live, 0 is offline.\<close>

datatype live_state = Offline | Live

definition mapped_status :: "int \<Rightarrow> live_state" where
  "mapped_status s = (if s = 1 then Live else Offline)"

definition sample_state :: "'t check_result \<Rightarrow> live_state" where
  "sample_state res =
     (case live_status (res_data res) of None \<Rightarrow> Offline | Some s \<Rightarrow> mapped_status s)"

text \<open>
  Samples applied one after the other; for each, whether the body reported a
  change.
\<close>

fun apply_samples ::
  "room_config list \<Rightarrow> (anchor_response \<times> 't check_result) list \<Rightarrow> 't state \<Rightarrow> bool list" where
  "apply_samples monitor_rooms [] st = []"
| "apply_samples monitor_rooms ((aresp, res) # rest) st =
     (let out = process_result monitor_rooms aresp (Returned (Some res)) st in
      (out_event out \<noteq> None) # apply_samples monitor_rooms rest (out_state out))"

text \<open>
  What the specification expects: an event when there is a previous status and
  the new one differs from it.
\<close>

fun expected_events :: "live_state option \<Rightarrow> live_state list \<Rightarrow> bool list" where
  "expected_events prev [] = []"
| "expected_events prev (s # ss) =
     (case prev of None \<Rightarrow> False | Some p \<Rightarrow> s \<noteq> p) # expected_events (Some s) ss"

text \<open>
  The states the plugin reaches from its start, by results of the status
  request that are failures or successful samples, and by group messages.
\<close>

inductive reachable :: "room_config list \<Rightarrow> 't state \<Rightarrow> bool"
  for monitor_rooms :: "room_config list" where
  start: "reachable monitor_rooms initial_state"
| sample:
    "reachable monitor_rooms st \<Longrightarrow>
     (\<And>res. result = Returned (Some res) \<Longrightarrow> successful_sample res) \<Longrightarrow>
     reachable monitor_rooms (out_state (process_result monitor_rooms aresp result st))"
| inbound:
    "reachable monitor_rooms st \<Longrightarrow>
     reachable monitor_rooms
       (state_after
          (on_group_message strftime duration_text monitor_rooms fetch now g text st))"

text \<open>
  The messages held for a group, room after room in the order of the dict, and
  the state without them.
\<close>

definition pending_for :: "pystr \<Rightarrow> 't state \<Rightarrow> pystr list" where
  "pending_for g st =
     concat (map (\<lambda>(rid, info). map message (filter (\<lambda>n. target n = g) (pending info)))
               (room_status st))"

definition without_target :: "pystr \<Rightarrow> 't room_info \<Rightarrow> 't room_info" where
  "without_target g info =
     (case notifications info of
        None \<Rightarrow> info
      | Some ns \<Rightarrow> info\<lparr>notifications := Some (filter (\<lambda>n. target n \<noteq> g) ns)\<rparr>)"

definition drained :: "pystr \<Rightarrow> 't state \<Rightarrow> 't state" where
  "drained g st =
     st\<lparr>room_status := map (\<lambda>(rid, info). (rid, without_target g info)) (room_status st)\<rparr>"

text \<open>The name in an answer to the anchor request that the source accepts.\<close>

definition fetched_name :: "anchor_response \<Rightarrow> pystr option" where
  "fetched_name resp =
     (case resp of
        AnchorFailed \<Rightarrow> None
      | AnchorJson code uname \<Rightarrow> if code = Some 0 then uname else None)"

text \<open>
  A status answer from which \<open>get_live_info\<close> can build a report: one that
  \<open>check_live_status\<close> turns into \<open>None\<close>, or one whose payload has the key
  \<open>live_status\<close>.
\<close>

definition answer_has_status :: "'t status_response \<Rightarrow> bool" where
  "answer_has_status resp =
     (case resp of
        StatusFailed \<Rightarrow> True
      | StatusJson code d \<Rightarrow>
          (case d of
             None \<Rightarrow> True
           | Some p \<Rightarrow> code = Some 0 \<longrightarrow> live_status p \<noteq> None))"

section \<open>Properties of the parser\<close>

lemma py_split_no_sep: "sep \<notin> set t \<Longrightarrow> py_split sep t = [t]"
proof -
  assume "sep \<notin> set t"
  then have "dropWhile (\<lambda>c. c \<noteq> sep) t = []"
    by auto
  then show ?thesis
    by (subst py_split.simps) (simp only: list.case)
qed

lemma py_split_token:
  assumes "sep \<notin> set t"
  shows "py_split sep (t @ sep # rest) = t # py_split sep rest"
proof -
  have d: "dropWhile (\<lambda>c. c \<noteq> sep) (t @ sep # rest) = sep # rest"
    using assms by (subst dropWhile_append2) auto
  have k: "takeWhile (\<lambda>c. c \<noteq> sep) (t @ sep # rest) = t"
    using assms by (auto simp: takeWhile_tail)
  show ?thesis
    by (subst py_split.simps) (simp add: d k)
qed

lemma py_split_join:
  "ts \<noteq> [] \<Longrightarrow> \<forall>t\<in>set ts. sep \<notin> set t \<Longrightarrow> py_split sep (py_join [sep] ts) = ts"
proof (induction "[sep]" ts rule: py_join.induct)
  case 1
  then show ?case by simp
next
  case (2 t)
  then show ?case by (simp add: py_split_no_sep)
next
  case (3 t u ts)
  then show ?case by (simp add: py_split_token)
qed

lemma py_join_split: "py_join [sep] (py_split sep s) = s"
proof (induction sep s rule: py_split.induct)
  case (1 sep s)
  show ?case
  proof (cases "dropWhile (\<lambda>c. c \<noteq> sep) s")
    case Nil
    then have "py_split sep s = [s]"
      by (subst py_split.simps) (simp only: list.case)
    then show ?thesis by simp
  next
    case (Cons x rest)
    then have x: "x = sep"
      using hd_dropWhile [of "\<lambda>c. c \<noteq> sep" s] by auto
    have ne: "py_split sep rest \<noteq> []"
      by (subst py_split.simps) (simp split: list.splits)
    then obtain u us where us: "py_split sep rest = u # us"
      by (cases "py_split sep rest") auto
    have "s = takeWhile (\<lambda>c. c \<noteq> sep) s @ dropWhile (\<lambda>c. c \<noteq> sep) s"
      by simp
    then have s: "s = takeWhile (\<lambda>c. c \<noteq> sep) s @ sep # rest"
      using Cons x by simp
    have "py_join [sep] (py_split sep s)
            = takeWhile (\<lambda>c. c \<noteq> sep) s @ [sep] @ py_join [sep] (py_split sep rest)"
      by (subst py_split.simps) (simp add: Cons us)
    also have "\<dots> = takeWhile (\<lambda>c. c \<noteq> sep) s @ sep # rest"
      using "1.IH" [OF Cons] by simp
    finally show ?thesis
      using s by simp
  qed
qed

lemma py_split_tokens_free: "t \<in> set (py_split sep s) \<Longrightarrow> sep \<notin> set t"
proof (induction sep s arbitrary: t rule: py_split.induct)
  case (1 sep s)
  show ?case
  proof (cases "dropWhile (\<lambda>c. c \<noteq> sep) s")
    case Nil
    then have "py_split sep s = [s]"
      by (subst py_split.simps) (simp only: list.case)
    moreover have "sep \<notin> set s"
      using Nil by (metis (mono_tags, lifting) dropWhile_eq_Nil_conv)
    ultimately show ?thesis
      using "1.prems" by simp
  next
    case (Cons x rest)
    then have "py_split sep s = takeWhile (\<lambda>c. c \<noteq> sep) s # py_split sep rest"
      by (subst py_split.simps) simp
    then consider "t = takeWhile (\<lambda>c. c \<noteq> sep) s" | "t \<in> set (py_split sep rest)"
      using "1.prems" by auto
    then show ?thesis
    proof cases
      case 1
      then show ?thesis
        by (auto dest: set_takeWhileD)
    next
      case 2
      then show ?thesis
        using "1.IH" [OF Cons] by simp
    qed
  qed
qed

lemma py_split1_first:
  "sep \<in> set t \<Longrightarrow>
   py_split1 sep t = [takeWhile (\<lambda>c. c \<noteq> sep) t, tl (dropWhile (\<lambda>c. c \<noteq> sep) t)]"
proof -
  assume "sep \<in> set t"
  then have "dropWhile (\<lambda>c. c \<noteq> sep) t \<noteq> []"
    by simp
  then show ?thesis
    by (cases "dropWhile (\<lambda>c. c \<noteq> sep) t") (simp_all add: py_split1_def)
qed

lemma parse_loop_tokens:
  "parse_loop ts rooms =
     Inr (rooms @ map (\<lambda>t. \<lparr>room_id = py_strip (takeWhile (\<lambda>c. c \<noteq> colon) t),
                             group_id = py_strip (tl (dropWhile (\<lambda>c. c \<noteq> colon) t))\<rparr>)
                    (filter (\<lambda>t. colon \<in> set t) ts))"
  by (induction ts arbitrary: rooms) (simp_all add: py_split1_first)

lemma parse_room_configs_split:
  "parse_room_configs s =
     Inr (map (\<lambda>t. \<lparr>room_id = py_strip (takeWhile (\<lambda>c. c \<noteq> colon) t),
                    group_id = py_strip (tl (dropWhile (\<lambda>c. c \<noteq> colon) t))\<rparr>)
            (filter (\<lambda>t. colon \<in> set t) (py_split comma s)))"
  by (simp add: parse_room_configs_def parse_loop_tokens)

lemma parse_room_configs_length:
  "\<exists>rooms. parse_room_configs s = Inr rooms \<and>
           length rooms = length (filter (\<lambda>t. colon \<in> set t) (py_split comma s))"
  by (simp add: parse_room_configs_split)

text \<open>
  What \<open>py_strip\<close> returns is the string without a run of white space at each
  end, and it neither starts nor ends with white space.
\<close>

lemma py_strip_decompose:
  "\<exists>pre suf. s = pre @ py_strip s @ suf \<and> (\<forall>c\<in>set pre. py_isspace c) \<and> (\<forall>c\<in>set suf. py_isspace c)"
proof -
  let ?a = "dropWhile py_isspace s"
  have 1: "s = takeWhile py_isspace s @ ?a" by simp
  have "rev ?a = takeWhile py_isspace (rev ?a) @ dropWhile py_isspace (rev ?a)" by simp
  then have "?a = rev (dropWhile py_isspace (rev ?a)) @ rev (takeWhile py_isspace (rev ?a))"
    by (metis rev_append rev_rev_ident)
  then have 2: "?a = py_strip s @ rev (takeWhile py_isspace (rev ?a))"
    by (simp add: py_strip_def)
  have "s = takeWhile py_isspace s @ py_strip s @ rev (takeWhile py_isspace (rev ?a))"
    using 1 2 by metis
  moreover have "\<forall>c\<in>set (takeWhile py_isspace s). py_isspace c"
    by (auto dest: set_takeWhileD)
  moreover have "\<forall>c\<in>set (rev (takeWhile py_isspace (rev ?a))). py_isspace c"
    by (auto dest: set_takeWhileD)
  ultimately show ?thesis by blast
qed

lemma py_strip_ends:
  "py_strip s \<noteq> [] \<Longrightarrow> \<not> py_isspace (hd (py_strip s)) \<and> \<not> py_isspace (last (py_strip s))"
proof -
  assume ne: "py_strip s \<noteq> []"
  let ?a = "dropWhile py_isspace s"
  let ?b = "dropWhile py_isspace (rev ?a)"
  have b: "?b \<noteq> []" using ne by (simp add: py_strip_def)
  then have l: "\<not> py_isspace (hd ?b)" by (rule hd_dropWhile)
  have "last (py_strip s) = hd ?b" using b by (simp add: py_strip_def last_rev)
  then have last: "\<not> py_isspace (last (py_strip s))" using l by simp
  have a: "?a \<noteq> []"
  proof
    assume e: "?a = []"
    have "?b = []" by (subst e) simp
    with b show False by simp
  qed
  then have ha: "\<not> py_isspace (hd ?a)" by (rule hd_dropWhile)
  have "rev ?a = takeWhile py_isspace (rev ?a) @ ?b" by simp
  then have "?a = rev ?b @ rev (takeWhile py_isspace (rev ?a))"
    by (metis rev_append rev_rev_ident)
  then have "hd ?a = hd (rev ?b)" using b by (metis hd_append2 rev_is_Nil_conv)
  then have "\<not> py_isspace (hd (py_strip s))" using ha by (simp add: py_strip_def)
  then show ?thesis using last by simp
qed

text \<open>
  C7: for every configuration string, written as its comma-separated tokens,
  the parser returns without an exception one entry for each token that
  contains \<open>:\<close>, in the order of the tokens, the room being the trimmed text
  before the first \<open>:\<close> and the group the trimmed text after it; the tokens
  without \<open>:\<close> leave no trace; the empty string gives the empty registry.
  By \<open>py_join_split\<close> and \<open>py_split_tokens_free\<close> every string is such a list
  of tokens.
\<close>

theorem parse_room_configs_tokens:
  "(ts \<noteq> [] \<and> (\<forall>t\<in>set ts. comma \<notin> set t) \<longrightarrow>
      parse_room_configs (py_join [comma] ts) =
        Inr (map (\<lambda>t. \<lparr>room_id = py_strip (takeWhile (\<lambda>c. c \<noteq> colon) t),
                       group_id = py_strip (tl (dropWhile (\<lambda>c. c \<noteq> colon) t))\<rparr>)
               (filter (\<lambda>t. colon \<in> set t) ts)))
   \<and> parse_room_configs [] = Inr []"
proof -
  have "parse_room_configs [] = Inr []"
    by (simp add: parse_room_configs_def py_split_no_sep)
  then show ?thesis
    by (simp add: parse_room_configs_def py_split_join parse_loop_tokens)
qed

theorem parse_room_configs_tokens_witness:
  "parse_room_configs (ascii ''1:2, bad ,3 : 4'') =
     Inr [\<lparr>room_id = ascii ''1'', group_id = ascii ''2''\<rparr>,
          \<lparr>room_id = ascii ''3'', group_id = ascii ''4''\<rparr>]
   \<and> parse_room_configs [] = Inr []"
  using parse_room_configs_tokens [of "[ascii ''1:2'', ascii '' bad '', ascii ''3 : 4'']"]
  by (simp add: ascii_def comma_def colon_def py_strip_def py_isspace_def)

text \<open>
  C10: a token is split at its first \<open>:\<close> only: when \<open>a\<close> has no \<open>:\<close>, the
  token \<open>a:b\<close> gives the room \<open>a\<close> trimmed and the group \<open>b\<close> trimmed, whatever
  further \<open>:\<close> the text \<open>b\<close> contains.
\<close>

theorem parse_room_configs_first_separator:
  assumes "colon \<notin> set a" and "comma \<notin> set a" and "comma \<notin> set b"
  shows "parse_room_configs (a @ colon # b) =
           Inr [\<lparr>room_id = py_strip a, group_id = py_strip b\<rparr>]"
proof -
  have "comma \<notin> set (a @ colon # b)"
    using assms by (simp add: comma_def colon_def)
  then have "py_split comma (a @ colon # b) = [a @ colon # b]"
    by (rule py_split_no_sep)
  moreover have "takeWhile (\<lambda>c. c \<noteq> colon) (a @ colon # b) = a"
    using assms(1) by (auto simp: takeWhile_tail)
  moreover have "dropWhile (\<lambda>c. c \<noteq> colon) (a @ colon # b) = colon # b"
    using assms(1) by (subst dropWhile_append2) auto
  ultimately show ?thesis
    by (simp add: parse_room_configs_def parse_loop_tokens)
qed

theorem parse_room_configs_first_separator_witness:
  "parse_room_configs (ascii ''1:2:3'') =
     Inr [\<lparr>room_id = ascii ''1'', group_id = ascii ''2:3''\<rparr>]"
  using parse_room_configs_first_separator [of "ascii ''1''" "ascii ''2:3''"]
  by (simp add: ascii_def comma_def colon_def py_strip_def py_isspace_def)

section \<open>Properties of the monitoring loop\<close>

lemma map_of_dict_set: "map_of (dict_set k v d) = (map_of d)(k \<mapsto> v)"
  by (induction d) (auto simp: fun_upd_twist)

lemma map_of_put_room:
  "map_of (room_status (put_room rid info st)) = (map_of (room_status st))(rid \<mapsto> info)"
  by (simp add: put_room_def map_of_dict_set)

lemma anchor_names_put_room: "anchor_names (put_room rid info st) = anchor_names st"
  by (simp add: put_room_def)

lemma room_status_get_anchor_info:
  "room_status (snd (get_anchor_info resp rid st)) = room_status st"
  by (simp add: get_anchor_info_def split: anchor_response.splits option.splits)

lemma put_room_get_anchor_info:
  "map_of (room_status (put_room r i (snd (get_anchor_info resp rid st)))) =
     (map_of (room_status st))(r \<mapsto> i)"
  by (simp add: map_of_put_room room_status_get_anchor_info)

lemma process_result_failed:
  "process_result monitor_rooms aresp (Returned None) st =
     \<lparr>out_state = st, out_event = None, out_raised = None\<rparr>"
  "process_result monitor_rooms aresp Raised st =
     \<lparr>out_state = st, out_event = None, out_raised = None\<rparr>"
  by (simp_all add: process_result_def)

lemma finish_change_other:
  "r \<noteq> rid \<Longrightarrow>
   map_of (room_status (out_state (finish_change monitor_rooms rid info cur msg stamp st))) r =
     map_of (room_status st) r"
  by (simp add: finish_change_def Let_def map_of_put_room)

lemma status_changed_other:
  "r \<noteq> rid \<Longrightarrow>
   map_of (room_status (out_state
      (status_changed monitor_rooms aresp rid info cur data stamp st))) r =
     map_of (room_status st) r"
  by (cases "get_anchor_info aresp rid st")
     (use room_status_get_anchor_info [of aresp rid st] in
       \<open>auto simp: status_changed_def finish_change_other split: option.splits\<close>)

lemma first_check_other:
  "r \<noteq> rid \<Longrightarrow>
   map_of (room_status (out_state (first_check rid info cur data stamp st))) r =
     map_of (room_status st) r"
  by (simp add: first_check_def Let_def map_of_put_room split: option.splits)

lemma process_result_other:
  assumes "\<forall>res. result = Returned (Some res) \<longrightarrow> res_room_id res \<noteq> r"
  shows "map_of (room_status (out_state (process_result monitor_rooms aresp result st))) r =
           map_of (room_status st) r"
proof (cases result)
  case Raised
  then show ?thesis by (simp add: process_result_failed)
next
  case (Returned opt)
  show ?thesis
  proof (cases opt)
    case None
    then show ?thesis using Returned by (simp add: process_result_failed)
  next
    case (Some res)
    then have ne: "r \<noteq> res_room_id res"
      using assms Returned by auto
    show ?thesis
      using ne Returned Some
      by (simp add: process_result_def Let_def first_check_other status_changed_other
            map_of_put_room split: option.splits)
  qed
qed

lemma process_results_other:
  assumes "\<forall>(a, g)\<in>set items. \<forall>res. g = Returned (Some res) \<longrightarrow> res_room_id res \<noteq> r"
  shows "map_of (room_status (fst (process_results monitor_rooms items st))) r =
           map_of (room_status st) r"
  using assms
proof (induction items arbitrary: st)
  case Nil
  then show ?case by simp
next
  case (Cons item items)
  obtain a g where item: "item = (a, g)" by (cases item)
  have step: "map_of (room_status (out_state (process_result monitor_rooms a g st))) r =
                map_of (room_status st) r"
    using Cons.prems item by (intro process_result_other) auto
  have rest: "\<forall>(a, g)\<in>set items. \<forall>res. g = Returned (Some res) \<longrightarrow> res_room_id res \<noteq> r"
    using Cons.prems by auto
  show ?case
    using step Cons.IH [OF rest, of "out_state (process_result monitor_rooms a g st)"]
    by (auto simp: item Let_def split: option.splits prod.splits)
qed

lemma process_results_skip_failed:
  "process_results monitor_rooms (filter (\<lambda>(a, g). g \<noteq> Returned None) items) st =
     process_results monitor_rooms items st"
proof (induction items arbitrary: st)
  case Nil
  then show ?case by simp
next
  case (Cons item items)
  obtain a g where item: "item = (a, g)" by (cases item)
  show ?case
  proof (cases "g = Returned None")
    case True
    then show ?thesis
      using Cons.IH by (simp add: item process_result_failed)
  next
    case False
    then show ?thesis
      using Cons.IH by (simp add: item Let_def split: option.splits)
  qed
qed

lemma check_live_status_room:
  "check_live_status rid resp now = Some res \<Longrightarrow> res_room_id res = rid"
  by (auto simp: check_live_status_def split: status_response.splits option.splits if_splits)

text \<open>
  The failures that \<open>check_live_status\<close> reports (an exception, a code other
  than 0, no data): when every status request for room \<open>r\<close> fails so in a
  cycle, the entry of \<open>r\<close> after the cycle is its entry before (status, times
  and queued notifications); such a request yields no event and no exception;
  and the cycle is the one the other results alone would make.
\<close>

theorem failed_fetch_keeps_state:
  assumes "\<forall>(room, p)\<in>set (zip monitor_rooms polls).
             room_id room = r \<longrightarrow> check_live_status r (poll_status p) (poll_now p) = None"
  shows "map_of (room_status (fst (monitor_cycle monitor_rooms polls st))) r =
           map_of (room_status st) r
         \<and> monitor_cycle monitor_rooms polls st =
             process_results monitor_rooms
               (filter (\<lambda>(a, g). g \<noteq> Returned None) (cycle_items monitor_rooms polls)) st
         \<and> process_result monitor_rooms aresp (Returned None) st =
             \<lparr>out_state = st, out_event = None, out_raised = None\<rparr>"
proof -
  have items: "\<forall>(a, g)\<in>set (cycle_items monitor_rooms polls).
                 \<forall>res. g = Returned (Some res) \<longrightarrow> res_room_id res \<noteq> r"
  proof (clarify)
    fix a res
    assume "(a, Returned (Some res)) \<in> set (cycle_items monitor_rooms polls)"
      and r: "r = res_room_id res"
    then obtain room p where in_zip: "(room, p) \<in> set (zip monitor_rooms polls)"
      and chk: "check_live_status (room_id room) (poll_status p) (poll_now p) = Some res"
      by (auto simp: cycle_items_def)
    have "room_id room = r"
      using check_live_status_room [OF chk] r by simp
    then have "check_live_status (room_id room) (poll_status p) (poll_now p) = None"
      using assms in_zip by auto
    then show False using chk by simp
  qed
  have "map_of (room_status (fst (monitor_cycle monitor_rooms polls st))) r =
          map_of (room_status st) r"
    using process_results_other [OF items] by (simp add: monitor_cycle_def)
  moreover have "monitor_cycle monitor_rooms polls st =
      process_results monitor_rooms
        (filter (\<lambda>(a, g). g \<noteq> Returned None) (cycle_items monitor_rooms polls)) st"
    by (simp add: process_results_skip_failed monitor_cycle_def)
  ultimately show ?thesis
    by (simp add: process_result_failed)
qed


theorem failed_fetch_keeps_state_witness:
  "map_of (room_status (fst (monitor_cycle
       [\<lparr>room_id = ascii ''456'', group_id = ascii ''g''\<rparr>,
        \<lparr>room_id = ascii ''123'', group_id = ascii ''g''\<rparr>]
       [\<lparr>poll_status = StatusFailed, poll_now = 7, poll_anchor = AnchorFailed\<rparr>,
        \<lparr>poll_status = StatusJson (Some 0) (Some \<lparr>live_status = Some 1, live_time = Some 3\<rparr>),
         poll_now = 7, poll_anchor = AnchorFailed\<rparr>]
       (initial_state :: nat state)))) (ascii ''456'') =
     map_of (room_status (initial_state :: nat state)) (ascii ''456'')"
proof -
  have h: "\<forall>(room, p)\<in>set (zip
       [\<lparr>room_id = ascii ''456'', group_id = ascii ''g''\<rparr>,
        \<lparr>room_id = ascii ''123'', group_id = ascii ''g''\<rparr>]
       [\<lparr>poll_status = StatusFailed, poll_now = 7::nat, poll_anchor = AnchorFailed\<rparr>,
        \<lparr>poll_status = StatusJson (Some 0) (Some \<lparr>live_status = Some 1, live_time = Some 3\<rparr>),
         poll_now = 7, poll_anchor = AnchorFailed\<rparr>]).
       room_id room = ascii ''456'' \<longrightarrow>
       check_live_status (ascii ''456'') (poll_status p) (poll_now p) = None"
    by (simp add: check_live_status_def ascii_def)
  show ?thesis
    by (rule conjunct1 [OF failed_fetch_keeps_state [OF h, where st = initial_state]])
qed

text \<open>
  C6: an answer with code 0 whose payload lacks \<open>live_status\<close> is a failed
  fetch too, but \<open>check_live_status\<close> returns it and the loop body reads the
  status outside any guard for the room: the \<open>KeyError\<close> ends the cycle. With
  room 456 answering so, room 123, listed after it, is not processed and the
  state stays the initial one, whereas after a request of room 456 that fails
  inside \<open>check_live_status\<close> room 123 gets its entry. And when the payload of
  room 456 has status 1 and no usable \<open>live_time\<close>, the entry of room 456 itself
  is written before the exception.
\<close>

theorem malformed_payload_ends_cycle:
  "fst (monitor_cycle
      [\<lparr>room_id = ascii ''456'', group_id = ascii ''g''\<rparr>,
       \<lparr>room_id = ascii ''123'', group_id = ascii ''g''\<rparr>]
      [\<lparr>poll_status = StatusJson (Some 0) (Some \<lparr>live_status = None, live_time = None\<rparr>),
        poll_now = 7, poll_anchor = AnchorFailed\<rparr>,
       \<lparr>poll_status = StatusJson (Some 0) (Some \<lparr>live_status = Some 1, live_time = Some 3\<rparr>),
        poll_now = 7, poll_anchor = AnchorFailed\<rparr>]
      (initial_state :: nat state)) = initial_state
   \<and> room_status (fst (monitor_cycle
      [\<lparr>room_id = ascii ''456'', group_id = ascii ''g''\<rparr>,
       \<lparr>room_id = ascii ''123'', group_id = ascii ''g''\<rparr>]
      [\<lparr>poll_status = StatusFailed, poll_now = 7, poll_anchor = AnchorFailed\<rparr>,
       \<lparr>poll_status = StatusJson (Some 0) (Some \<lparr>live_status = Some 1, live_time = Some 3\<rparr>),
        poll_now = 7, poll_anchor = AnchorFailed\<rparr>]
      (initial_state :: nat state))) =
       [(ascii ''123'',
         \<lparr>last_status = Some 1, live_start_time = Some 3, last_check_time = Some 7,
          notifications = None\<rparr>)]
   \<and> room_status (fst (monitor_cycle
      [\<lparr>room_id = ascii ''456'', group_id = ascii ''g''\<rparr>,
       \<lparr>room_id = ascii ''123'', group_id = ascii ''g''\<rparr>]
      [\<lparr>poll_status = StatusJson (Some 0) (Some \<lparr>live_status = Some 1, live_time = None\<rparr>),
        poll_now = 7, poll_anchor = AnchorFailed\<rparr>,
       \<lparr>poll_status = StatusJson (Some 0) (Some \<lparr>live_status = Some 1, live_time = Some 3\<rparr>),
        poll_now = 7, poll_anchor = AnchorFailed\<rparr>]
      (initial_state :: nat state))) =
       [(ascii ''456'',
         \<lparr>last_status = Some 1, live_start_time = None, last_check_time = None,
          notifications = None\<rparr>)]"
  by (simp add: monitor_cycle_def cycle_items_def check_live_status_def process_result_def
        first_check_def put_room_def new_room_info_def initial_state_def Let_def ascii_def)

section \<open>Properties of the snapshot\<close>

text \<open>
  When \<open>check_live_status\<close> reports a failure, \<open>get_live_info\<close> returns the
  report \<open>unavailable_report\<close> and raises nothing, whatever the state (also
  without an entry for the room); the report has no line break unless the room
  id has.
\<close>

theorem get_live_info_unavailable:
  assumes "check_live_status rid resp now = None"
  shows "get_live_info strftime duration_text st rid resp now = Inr (unavailable_report rid)
         \<and> (10 \<notin> set rid \<longrightarrow> 10 \<notin> set (unavailable_report rid))"
  using assms
  by (simp add: get_live_info_def unavailable_report_def unavailable_prefix_def
        unavailable_suffix_def)

theorem get_live_info_unavailable_witness:
  "get_live_info (\<lambda>t. []) (\<lambda>n t. []) (initial_state :: nat state) (ascii ''456'')
      StatusFailed 0 = Inr (unavailable_report (ascii ''456''))
   \<and> 10 \<notin> set (unavailable_report (ascii ''456''))"
proof -
  have h: "check_live_status (ascii ''456'') (StatusFailed :: nat status_response) 0 = None"
    by (simp add: check_live_status_def)
  show ?thesis
    using get_live_info_unavailable [OF h, of "\<lambda>t. []" "\<lambda>n t. []" initial_state]
    by (simp add: ascii_def)
qed

text \<open>
  C8: for a room without an entry, an answer with code 0 whose payload lacks
  \<open>live_status\<close>, a failed fetch too, makes \<open>get_live_info\<close> raise \<open>KeyError\<close>
  where the report was due; a request that fails inside \<open>check_live_status\<close>
  gives the report, one line made of the room id between the two fixed texts.
\<close>

theorem get_live_info_malformed_raises:
  "get_live_info (\<lambda>t. []) (\<lambda>n t. []) (initial_state :: nat state) (ascii ''456'')
      (StatusJson (Some 0) (Some \<lparr>live_status = None, live_time = None\<rparr>)) 0 = Inl KeyError
   \<and> get_live_info (\<lambda>t. []) (\<lambda>n t. []) (initial_state :: nat state) (ascii ''456'')
      StatusFailed 0 =
       Inr ([30452, 25773, 38388, 32] @ ascii ''456''
            @ [65306, 26080, 27861, 33719, 21462, 30452, 25773, 20449, 24687])"
  by (simp add: get_live_info_def check_live_status_def unavailable_report_def
        unavailable_prefix_def unavailable_suffix_def)

text \<open>The status request fails on an exception, a code other than 0 or no data.\<close>

lemma check_live_status_None:
  "check_live_status rid resp now = None \<longleftrightarrow>
     (case resp of StatusFailed \<Rightarrow> True | StatusJson code d \<Rightarrow> code \<noteq> Some 0 \<or> d = None)"
  by (simp add: check_live_status_def split: status_response.splits option.splits)

section \<open>Properties of the anchor names\<close>

text \<open>
  C2 does not hold: with a name in the cache, \<open>get_anchor_info\<close> returns the name
  just fetched, not the cached one; and after a failed request on an empty
  cache the default name is not in the cache.
\<close>

theorem get_anchor_info_counterexample:
  "fst (get_anchor_info (AnchorJson (Some 0) (Some (ascii ''new''))) (ascii ''1'')
          (\<lparr>room_status = [], anchor_names = [ascii ''1'' \<mapsto> ascii ''old'']\<rparr> :: nat state))
     = ascii ''new''
   \<and> anchor_names (snd (get_anchor_info AnchorFailed (ascii ''1'') (initial_state :: nat state)))
       (ascii ''1'') = None"
  by (simp add: get_anchor_info_def initial_state_def)

text \<open>
  C2, amended: \<open>get_anchor_info\<close> does not read the cache, its result is that of
  the request it sends on each call: a fetched name is returned and stored, a
  failed request gives the default name and leaves the state as it is.
\<close>

theorem get_anchor_info_fetches:
  "fst (get_anchor_info resp rid st) = fst (get_anchor_info resp rid st')
   \<and> (fetched_name resp = Some n \<longrightarrow>
        get_anchor_info resp rid st = (n, st\<lparr>anchor_names := (anchor_names st)(rid \<mapsto> n)\<rparr>))
   \<and> (fetched_name resp = None \<longrightarrow>
        get_anchor_info resp rid st = (default_anchor_name rid, st))"
  by (simp add: get_anchor_info_def fetched_name_def split: anchor_response.splits option.splits)

theorem get_anchor_info_fetches_witness:
  "get_anchor_info (AnchorJson (Some 0) (Some (ascii ''new''))) (ascii ''1'')
      (\<lparr>room_status = [], anchor_names = [ascii ''1'' \<mapsto> ascii ''old'']\<rparr> :: nat state)
     = (ascii ''new'', \<lparr>room_status = [], anchor_names = [ascii ''1'' \<mapsto> ascii ''new'']\<rparr>)
   \<and> get_anchor_info AnchorFailed (ascii ''1'') (initial_state :: nat state)
     = (default_anchor_name (ascii ''1''), initial_state)"
proof -
  let ?st = "\<lparr>room_status = [], anchor_names = [ascii ''1'' \<mapsto> ascii ''old'']\<rparr> :: nat state"
  have h1: "fetched_name (AnchorJson (Some 0) (Some (ascii ''new''))) = Some (ascii ''new'')"
    by (simp add: fetched_name_def)
  have h2: "fetched_name AnchorFailed = None"
    by (simp add: fetched_name_def)
  have "get_anchor_info (AnchorJson (Some 0) (Some (ascii ''new''))) (ascii ''1'') ?st =
          (ascii ''new'', ?st\<lparr>anchor_names := (anchor_names ?st)(ascii ''1'' \<mapsto> ascii ''new'')\<rparr>)"
    using get_anchor_info_fetches [where resp = "AnchorJson (Some 0) (Some (ascii ''new''))"
        and rid = "ascii ''1''" and n = "ascii ''new''" and st = ?st and st' = ?st] h1
    by blast
  moreover have "get_anchor_info AnchorFailed (ascii ''1'') (initial_state :: nat state) =
          (default_anchor_name (ascii ''1''), initial_state)"
    using get_anchor_info_fetches [where resp = AnchorFailed and rid = "ascii ''1''"
        and st = "initial_state :: nat state" and st' = initial_state and n = "[]"] h2
    by blast
  ultimately show ?thesis
    by simp
qed

section \<open>Properties of the notification queue\<close>

lemma drain_room_kept:
  "\<forall>k\<in>set kept. target k \<noteq> g \<Longrightarrow>
   drain_room g copy (kept @ copy) to_send =
     Inr (kept @ filter (\<lambda>n. target n \<noteq> g) copy,
          to_send @ map message (filter (\<lambda>n. target n = g) copy))"
proof (induction copy arbitrary: kept to_send)
  case Nil
  then show ?case by simp
next
  case (Cons n copy)
  show ?case
  proof (cases "target n = g")
    case True
    then have "n \<notin> set kept"
      using Cons.prems by auto
    then have "py_remove n (kept @ n # copy) = Inr (kept @ copy)"
      by (simp add: py_remove_def remove1_append)
    then show ?thesis
      using True Cons.IH [OF Cons.prems] by simp
  next
    case False
    then have "\<forall>k\<in>set (kept @ [n]). target k \<noteq> g"
      using Cons.prems by simp
    from Cons.IH [OF this, of to_send] show ?thesis
      using False by simp
  qed
qed

lemma drain_room_all:
  "drain_room g ns ns to_send =
     Inr (filter (\<lambda>n. target n \<noteq> g) ns, to_send @ map message (filter (\<lambda>n. target n = g) ns))"
  using drain_room_kept [of "[]" g ns to_send] by simp

lemma drain_rooms_all:
  "drain_rooms g rs to_send =
     Inr (map (\<lambda>(rid, info). (rid, without_target g info)) rs,
          to_send @ concat (map (\<lambda>(rid, info).
                                  map message (filter (\<lambda>n. target n = g) (pending info))) rs))"
proof (induction rs arbitrary: to_send)
  case Nil
  then show ?case by simp
next
  case (Cons r rs)
  obtain rid info where r: "r = (rid, info)" by (cases r)
  show ?case
  proof (cases "notifications info")
    case None
    then show ?thesis
      by (simp add: r Cons.IH without_target_def pending_def)
  next
    case (Some ns)
    then show ?thesis
      by (simp add: r Cons.IH drain_room_all without_target_def pending_def)
  qed
qed

lemma drain_total: "drain g st = Inr (pending_for g st, drained g st)"
  by (simp add: drain_def drain_rooms_all pending_for_def drained_def)

lemma pending_without_target:
  "pending (without_target g info) = filter (\<lambda>n. target n \<noteq> g) (pending info)"
  by (simp add: without_target_def pending_def split: option.splits)

lemma without_target_twice: "without_target g (without_target g info) = without_target g info"
  by (simp add: without_target_def split: option.splits)

lemma pending_for_drained:
  "pending_for g' (drained g st) = (if g' = g then [] else pending_for g' st)"
proof -
  have other: "g' \<noteq> g \<Longrightarrow>
      filter (\<lambda>n. target n \<noteq> g \<and> target n = g') ns = filter (\<lambda>n. target n = g') ns"
    for ns :: "notification list"
    by (rule filter_cong) auto
  have "concat (map (\<lambda>(rid, info). map message (filter (\<lambda>n. target n = g') (pending info)))
                  (map (\<lambda>(rid, info). (rid, without_target g info)) rs)) =
          (if g' = g then []
           else concat (map (\<lambda>(rid, info).
                               map message (filter (\<lambda>n. target n = g') (pending info))) rs))"
    for rs :: "(pystr \<times> 'a room_info) list"
    by (induction rs) (auto simp: pending_without_target other)
  then show ?thesis
    by (simp add: pending_for_def drained_def)
qed

lemma drained_twice: "drained g (drained g st) = drained g st"
  by (simp add: drained_def comp_def case_prod_beta without_target_twice)

lemma pending_enqueue:
  "pending (enqueue_notification (Some g) m info) =
     (if g = [] then pending info else pending info @ [\<lparr>message = m, target = g\<rparr>])"
  by (simp add: enqueue_notification_def pending_def split: option.splits)


text \<open>
  C5 does not hold across rooms. Rooms 1 and 2 notify group g and both are
  first seen live. Room 2 ends (room 1's request fails), then room 1 ends: the
  message of room 2 is queued first, as the drain after the second cycle shows,
  yet the drain after the third cycle returns the message of room 1 first.
\<close>

theorem drain_order_counterexample:
  "map_sum id fst (drain (ascii ''g'')
     (fst (monitor_cycle
        [\<lparr>room_id = ascii ''1'', group_id = ascii ''g''\<rparr>,
         \<lparr>room_id = ascii ''2'', group_id = ascii ''g''\<rparr>]
        [\<lparr>poll_status = StatusFailed, poll_now = 20, poll_anchor = AnchorFailed\<rparr>,
         \<lparr>poll_status = StatusJson (Some 0) (Some \<lparr>live_status = Some 0, live_time = None\<rparr>),
          poll_now = 20, poll_anchor = AnchorJson (Some 0) (Some (ascii ''b''))\<rparr>]
        (fst (monitor_cycle
           [\<lparr>room_id = ascii ''1'', group_id = ascii ''g''\<rparr>,
            \<lparr>room_id = ascii ''2'', group_id = ascii ''g''\<rparr>]
           [\<lparr>poll_status = StatusJson (Some 0) (Some \<lparr>live_status = Some 1, live_time = Some 5\<rparr>),
             poll_now = 10, poll_anchor = AnchorFailed\<rparr>,
            \<lparr>poll_status = StatusJson (Some 0) (Some \<lparr>live_status = Some 1, live_time = Some 6\<rparr>),
             poll_now = 10, poll_anchor = AnchorFailed\<rparr>]
           (initial_state :: nat state))))))
     = Inr [ascii ''b'' @ live_ended_text]
   \<and> map_sum id fst (drain (ascii ''g'')
     (fst (monitor_cycle
        [\<lparr>room_id = ascii ''1'', group_id = ascii ''g''\<rparr>,
         \<lparr>room_id = ascii ''2'', group_id = ascii ''g''\<rparr>]
        [\<lparr>poll_status = StatusJson (Some 0) (Some \<lparr>live_status = Some 0, live_time = None\<rparr>),
          poll_now = 30, poll_anchor = AnchorJson (Some 0) (Some (ascii ''a''))\<rparr>,
         \<lparr>poll_status = StatusFailed, poll_now = 30, poll_anchor = AnchorFailed\<rparr>]
     (fst (monitor_cycle
        [\<lparr>room_id = ascii ''1'', group_id = ascii ''g''\<rparr>,
         \<lparr>room_id = ascii ''2'', group_id = ascii ''g''\<rparr>]
        [\<lparr>poll_status = StatusFailed, poll_now = 20, poll_anchor = AnchorFailed\<rparr>,
         \<lparr>poll_status = StatusJson (Some 0) (Some \<lparr>live_status = Some 0, live_time = None\<rparr>),
          poll_now = 20, poll_anchor = AnchorJson (Some 0) (Some (ascii ''b''))\<rparr>]
        (fst (monitor_cycle
           [\<lparr>room_id = ascii ''1'', group_id = ascii ''g''\<rparr>,
            \<lparr>room_id = ascii ''2'', group_id = ascii ''g''\<rparr>]
           [\<lparr>poll_status = StatusJson (Some 0) (Some \<lparr>live_status = Some 1, live_time = Some 5\<rparr>),
             poll_now = 10, poll_anchor = AnchorFailed\<rparr>,
            \<lparr>poll_status = StatusJson (Some 0) (Some \<lparr>live_status = Some 1, live_time = Some 6\<rparr>),
             poll_now = 10, poll_anchor = AnchorFailed\<rparr>]
           (initial_state :: nat state))))))))
     = Inr [ascii ''a'' @ live_ended_text, ascii ''b'' @ live_ended_text]"
  by (simp add: monitor_cycle_def cycle_items_def check_live_status_def process_result_def
        first_check_def status_changed_def finish_change_def enqueue_notification_def
        get_anchor_info_def put_room_def new_room_info_def initial_state_def Let_def
        drain_def py_remove_def ascii_def)

text \<open>
  C5, amended: a drain for a group never raises; it returns the messages held
  for the group, room after room in the order in which the rooms got their
  entries and, inside a room, in the order of their arrival (a notification is
  put at the end of its room's list), and removes them; a second drain right
  after returns nothing and changes nothing; the messages of the other groups
  stay as they are.
\<close>

theorem drain_returns_pending:
  "drain g st = Inr (pending_for g st, drained g st)
   \<and> drain g (drained g st) = Inr ([], drained g st)
   \<and> (g' \<noteq> g \<longrightarrow> pending_for g' (drained g st) = pending_for g' st)
   \<and> pending (enqueue_notification (Some g) m info) =
       (if g = [] then pending info else pending info @ [\<lparr>message = m, target = g\<rparr>])"
  by (simp add: drain_total pending_for_drained drained_twice pending_enqueue)

theorem drain_returns_pending_witness:
  "drain (ascii ''g'')
     \<lparr>room_status =
        [(ascii ''1'',
          \<lparr>last_status = Some 1, live_start_time = Some (5::nat), last_check_time = Some 9,
           notifications = Some [\<lparr>message = ascii ''m1'', target = ascii ''g''\<rparr>,
                                 \<lparr>message = ascii ''x'', target = ascii ''h''\<rparr>,
                                 \<lparr>message = ascii ''m2'', target = ascii ''g''\<rparr>,
                                 \<lparr>message = ascii ''m3'', target = ascii ''g''\<rparr>]\<rparr>)],
      anchor_names = Map.empty\<rparr>
   = Inr ([ascii ''m1'', ascii ''m2'', ascii ''m3''],
          \<lparr>room_status =
             [(ascii ''1'',
               \<lparr>last_status = Some 1, live_start_time = Some 5, last_check_time = Some 9,
                notifications = Some [\<lparr>message = ascii ''x'', target = ascii ''h''\<rparr>]\<rparr>)],
           anchor_names = Map.empty\<rparr>)
   \<and> ascii ''h'' \<noteq> ascii ''g''
   \<and> pending_for (ascii ''h'')
        (drained (ascii ''g'')
           \<lparr>room_status =
              [(ascii ''1'',
                \<lparr>last_status = Some 1, live_start_time = Some (5::nat), last_check_time = Some 9,
                 notifications = Some [\<lparr>message = ascii ''m1'', target = ascii ''g''\<rparr>,
                                       \<lparr>message = ascii ''x'', target = ascii ''h''\<rparr>,
                                       \<lparr>message = ascii ''m2'', target = ascii ''g''\<rparr>,
                                       \<lparr>message = ascii ''m3'', target = ascii ''g''\<rparr>]\<rparr>)],
            anchor_names = Map.empty\<rparr>)
       = [ascii ''x'']"
proof -
  let ?st = "\<lparr>room_status =
        [(ascii ''1'',
          \<lparr>last_status = Some 1, live_start_time = Some (5::nat), last_check_time = Some 9,
           notifications = Some [\<lparr>message = ascii ''m1'', target = ascii ''g''\<rparr>,
                                 \<lparr>message = ascii ''x'', target = ascii ''h''\<rparr>,
                                 \<lparr>message = ascii ''m2'', target = ascii ''g''\<rparr>,
                                 \<lparr>message = ascii ''m3'', target = ascii ''g''\<rparr>]\<rparr>)],
      anchor_names = Map.empty\<rparr>"
  have "drain (ascii ''g'') ?st = Inr (pending_for (ascii ''g'') ?st, drained (ascii ''g'') ?st)"
    by (rule conjunct1 [OF drain_returns_pending])
  moreover have ne: "ascii ''h'' \<noteq> ascii ''g''"
    by (simp add: ascii_def)
  moreover have "pending_for (ascii ''h'') (drained (ascii ''g'') ?st) =
                   pending_for (ascii ''h'') ?st"
    using drain_returns_pending [where g = "ascii ''g''" and g' = "ascii ''h''" and st = ?st] ne
    by blast
  ultimately show ?thesis
    by (simp add: pending_for_def drained_def without_target_def pending_def ascii_def)
qed

section \<open>Properties of the handler of group messages\<close>

text \<open>
  The reports of the rooms of a group, as \<open>get_live_info\<close> returns them, and the
  loop that collects them.
\<close>

lemma collect_info_reports:
  assumes "map (\<lambda>c. get_live_info strftime duration_text st (room_id c) (fetch (room_id c)) now)
             (filter (\<lambda>c. group_id c = g) rooms) = map Inr infos"
  shows "collect_info strftime duration_text st fetch now g rooms info_lines =
           Inr (info_lines @ infos)"
  using assms
proof (induction rooms arbitrary: info_lines infos)
  case Nil
  then show ?case by simp
next
  case (Cons c rooms)
  show ?case
  proof (cases "group_id c = g")
    case True
    then obtain i rest where infos: "infos = i # rest"
      and i: "get_live_info strftime duration_text st (room_id c) (fetch (room_id c)) now = Inr i"
      and rest: "map (\<lambda>c. get_live_info strftime duration_text st (room_id c)
                            (fetch (room_id c)) now)
                   (filter (\<lambda>c. group_id c = g) rooms) = map Inr rest"
      using Cons.prems by (cases infos) auto
    show ?thesis
      using True i Cons.IH [OF rest, of "info_lines @ [i]"] by (simp add: infos)
  next
    case False
    then show ?thesis
      using Cons.prems Cons.IH [of infos info_lines] by simp
  qed
qed

text \<open>
  C9 does not hold: the text \<open>liveinfo\<close> after a space is not the word in any
  letter case, yet the handler answers it as the command (here with the reply
  of a group without rooms, nothing being pending).
\<close>

theorem on_group_message_counterexample:
  "py_lower (ascii '' liveinfo'') \<noteq> liveinfo
   \<and> replies (on_group_message (\<lambda>t. []) (\<lambda>n t. []) [] (\<lambda>r. StatusFailed) 0 (ascii ''g'')
        (ascii '' liveinfo'') (initial_state :: nat state)) = [no_rooms_text]"
  by (simp add: on_group_message_def drain_def initial_state_def py_lower_def py_strip_def
        py_isspace_def liveinfo_def ascii_def)

text \<open>
  \<open>get_live_info\<close> returns a report exactly for the answers of
  \<open>answer_has_status\<close>; for the others it raises \<open>KeyError\<close>.
\<close>

lemma get_live_info_returns:
  "answer_has_status resp \<Longrightarrow>
   \<exists>info. get_live_info strftime duration_text st rid resp now = Inr info"
  by (cases resp)
     (auto simp: answer_has_status_def get_live_info_def check_live_status_def Let_def
       split: option.splits)

lemma get_live_info_raises:
  "\<not> answer_has_status resp \<Longrightarrow>
   get_live_info strftime duration_text st rid resp now = Inl KeyError"
  by (cases resp)
     (auto simp: answer_has_status_def get_live_info_def check_live_status_def Let_def
       split: option.splits)

lemma reports_returned:
  "\<forall>c\<in>set rooms. answer_has_status (fetch (room_id c)) \<Longrightarrow>
   \<exists>infos. map (\<lambda>c. get_live_info strftime duration_text st (room_id c) (fetch (room_id c)) now)
              rooms = map Inr infos"
proof (induction rooms)
  case Nil
  then show ?case by simp
next
  case (Cons c rooms)
  then obtain infos where
    "map (\<lambda>c. get_live_info strftime duration_text st (room_id c) (fetch (room_id c)) now)
       rooms = map Inr infos"
    by auto
  moreover obtain info where
    "get_live_info strftime duration_text st (room_id c) (fetch (room_id c)) now = Inr info"
    using Cons.prems
      get_live_info_returns [of "fetch (room_id c)" strftime duration_text st "room_id c" now]
    by auto
  ultimately have
    "map (\<lambda>c. get_live_info strftime duration_text st (room_id c) (fetch (room_id c)) now)
       (c # rooms) = map Inr (info # infos)"
    by simp
  then show ?case by blast
qed

text \<open>
  C9, amended: the handler first drains the notifications of the group. When the
  text, trimmed of surrounding white space and put in lower case, is
  \<open>liveinfo\<close>, and each status answer for a room of the group is a failure that
  \<open>check_live_status\<close> reports or has the key \<open>live_status\<close>, every room of the
  group gets its snapshot and one more reply follows: the header and the
  snapshots joined by line breaks, or the text \<open>no_rooms_text\<close> when the group
  has no room. Any other text gives the drained notifications only, hence no
  reply when nothing is pending.
\<close>

theorem on_group_message_replies:
  "(py_lower (py_strip inbound) \<noteq> liveinfo \<longrightarrow>
      on_group_message strftime duration_text monitor_rooms fetch now g inbound st =
        \<lparr>replies = pending_for g st, raised = None, state_after = drained g st\<rparr>)
   \<and> (py_lower (py_strip inbound) = liveinfo \<and>
      (\<forall>c\<in>set monitor_rooms. group_id c = g \<longrightarrow> answer_has_status (fetch (room_id c))) \<longrightarrow>
      (\<exists>infos.
         map (\<lambda>c. get_live_info strftime duration_text (drained g st) (room_id c)
                     (fetch (room_id c)) now)
           (filter (\<lambda>c. group_id c = g) monitor_rooms) = map Inr infos
         \<and> on_group_message strftime duration_text monitor_rooms fetch now g inbound st =
             \<lparr>replies = pending_for g st
                         @ [if infos = [] then no_rooms_text
                            else report_header @ py_join [10] infos],
              raised = None, state_after = drained g st\<rparr>))"
proof (intro conjI impI)
  assume "py_lower (py_strip inbound) \<noteq> liveinfo"
  then show "on_group_message strftime duration_text monitor_rooms fetch now g inbound st =
        \<lparr>replies = pending_for g st, raised = None, state_after = drained g st\<rparr>"
    by (simp add: on_group_message_def drain_total Let_def)
next
  assume h: "py_lower (py_strip inbound) = liveinfo \<and>
      (\<forall>c\<in>set monitor_rooms. group_id c = g \<longrightarrow> answer_has_status (fetch (room_id c)))"
  then have "\<forall>c\<in>set (filter (\<lambda>c. group_id c = g) monitor_rooms).
               answer_has_status (fetch (room_id c))"
    by simp
  from reports_returned [OF this, of strftime duration_text "drained g st" now]
  obtain infos where infos:
    "map (\<lambda>c. get_live_info strftime duration_text (drained g st) (room_id c)
                (fetch (room_id c)) now)
       (filter (\<lambda>c. group_id c = g) monitor_rooms) = map Inr infos"
    by blast
  have "collect_info strftime duration_text (drained g st) fetch now g monitor_rooms [] =
          Inr infos"
    using collect_info_reports [OF infos, of "[]"] by simp
  then have "on_group_message strftime duration_text monitor_rooms fetch now g inbound st =
             \<lparr>replies = pending_for g st
                         @ [if infos = [] then no_rooms_text
                            else report_header @ py_join [10] infos],
              raised = None, state_after = drained g st\<rparr>"
    using h by (simp add: on_group_message_def drain_total Let_def)
  then show "\<exists>infos.
         map (\<lambda>c. get_live_info strftime duration_text (drained g st) (room_id c)
                     (fetch (room_id c)) now)
           (filter (\<lambda>c. group_id c = g) monitor_rooms) = map Inr infos
         \<and> on_group_message strftime duration_text monitor_rooms fetch now g inbound st =
             \<lparr>replies = pending_for g st
                         @ [if infos = [] then no_rooms_text
                            else report_header @ py_join [10] infos],
              raised = None, state_after = drained g st\<rparr>"
    using infos by blast
qed

theorem on_group_message_replies_witness:
  "on_group_message (\<lambda>t. []) (\<lambda>n t. [])
     [\<lparr>room_id = ascii ''1'', group_id = ascii ''g''\<rparr>,
      \<lparr>room_id = ascii ''2'', group_id = ascii ''h''\<rparr>,
      \<lparr>room_id = ascii ''3'', group_id = ascii ''g''\<rparr>]
     (\<lambda>r. StatusFailed) 0 (ascii ''g'') (ascii ''  LiveInfo '') (initial_state :: nat state)
   = \<lparr>replies = [report_header @ unavailable_report (ascii ''1'') @ [10]
                    @ unavailable_report (ascii ''3'')],
      raised = None, state_after = initial_state\<rparr>
   \<and> on_group_message (\<lambda>t. []) (\<lambda>n t. [])
     [\<lparr>room_id = ascii ''1'', group_id = ascii ''g''\<rparr>,
      \<lparr>room_id = ascii ''2'', group_id = ascii ''h''\<rparr>,
      \<lparr>room_id = ascii ''3'', group_id = ascii ''g''\<rparr>]
     (\<lambda>r. StatusFailed) 0 (ascii ''g'') (ascii ''hello'') (initial_state :: nat state)
   = \<lparr>replies = [], raised = None, state_after = initial_state\<rparr>"
proof -
  let ?rooms = "[\<lparr>room_id = ascii ''1'', group_id = ascii ''g''\<rparr>,
      \<lparr>room_id = ascii ''2'', group_id = ascii ''h''\<rparr>,
      \<lparr>room_id = ascii ''3'', group_id = ascii ''g''\<rparr>]"
  let ?st = "initial_state :: nat state"
  let ?fetch = "\<lambda>r :: pystr. StatusFailed :: nat status_response"
  let ?reports = "map (\<lambda>c. get_live_info (\<lambda>t. []) (\<lambda>n t. []) (drained (ascii ''g'') ?st)
                         (room_id c) (?fetch (room_id c)) 0)
                    (filter (\<lambda>c. group_id c = ascii ''g'') ?rooms)"
  have cmd: "py_lower (py_strip (ascii ''  LiveInfo '')) = liveinfo"
    by (simp add: py_lower_def py_strip_def py_isspace_def liveinfo_def ascii_def)
  have other: "py_lower (py_strip (ascii ''hello'')) \<noteq> liveinfo"
    by (simp add: py_lower_def py_strip_def py_isspace_def liveinfo_def ascii_def)
  have answers: "\<forall>c\<in>set ?rooms. group_id c = ascii ''g'' \<longrightarrow>
                   answer_has_status (?fetch (room_id c))"
    by (simp add: answer_has_status_def)
  have reports: "?reports =
      map Inr [unavailable_report (ascii ''1''), unavailable_report (ascii ''3'')]"
    by (simp add: get_live_info_def check_live_status_def ascii_def)
  obtain infos where infos: "?reports = map Inr infos"
    and reply: "on_group_message (\<lambda>t. []) (\<lambda>n t. []) ?rooms ?fetch 0 (ascii ''g'')
          (ascii ''  LiveInfo '') ?st =
        \<lparr>replies = pending_for (ascii ''g'') ?st
                    @ [if infos = [] then no_rooms_text
                       else report_header @ py_join [10] infos],
         raised = None, state_after = drained (ascii ''g'') ?st\<rparr>"
    using on_group_message_replies [where inbound = "ascii ''  LiveInfo ''"
        and g = "ascii ''g''" and st = ?st and monitor_rooms = ?rooms and now = 0
        and fetch = ?fetch and strftime = "\<lambda>t. []" and duration_text = "\<lambda>n t. []"]
      cmd answers
    by blast
  have "map Inr infos =
          (map Inr [unavailable_report (ascii ''1''), unavailable_report (ascii ''3'')]
             :: (py_error + pystr) list)"
    using infos reports by simp
  then have infos_eq: "infos = [unavailable_report (ascii ''1''), unavailable_report (ascii ''3'')]"
    by (auto simp: map_eq_Cons_conv)
  have "on_group_message (\<lambda>t. []) (\<lambda>n t. []) ?rooms ?fetch 0 (ascii ''g'')
          (ascii ''hello'') ?st =
        \<lparr>replies = pending_for (ascii ''g'') ?st, raised = None,
         state_after = drained (ascii ''g'') ?st\<rparr>"
    using on_group_message_replies [where inbound = "ascii ''hello''"
        and g = "ascii ''g''" and st = ?st and monitor_rooms = ?rooms and now = 0
        and fetch = ?fetch and strftime = "\<lambda>t. []" and duration_text = "\<lambda>n t. []"]
      other
    by blast
  then show ?thesis
    using reply infos_eq
    by (simp add: pending_for_def drained_def initial_state_def)
qed

section \<open>Properties of the state of a room\<close>

text \<open>The entry the body works on, and what one successful sample does to it.\<close>

lemma process_result_first:
  assumes "live_status (res_data res) = Some cur"
    and "successful_sample res"
    and "stored_status st (res_room_id res) = None"
  shows "out_event (process_result monitor_rooms aresp (Returned (Some res)) st) = None"
    and "out_raised (process_result monitor_rooms aresp (Returned (Some res)) st) = None"
    and "stored_status (out_state (process_result monitor_rooms aresp (Returned (Some res)) st))
           (res_room_id res) = Some cur"
  using assms
  by (auto simp: process_result_def first_check_def successful_sample_def stored_status_def
        new_room_info_def map_of_put_room Let_def
      split: option.splits Option.bind_splits)


lemma enqueue_notification_fields:
  "last_status (enqueue_notification tg msg info) = last_status info"
  "live_start_time (enqueue_notification tg msg info) = live_start_time info"
  "last_check_time (enqueue_notification tg msg info) = last_check_time info"
  by (simp_all add: enqueue_notification_def split: option.splits)

lemma finish_change_result:
  "out_event (finish_change monitor_rooms rid info cur msg stamp st) = Some msg"
  "out_raised (finish_change monitor_rooms rid info cur msg stamp st) = None"
  "map_of (room_status (out_state (finish_change monitor_rooms rid info cur msg stamp st))) =
     (map_of (room_status st))
       (rid \<mapsto> (enqueue_notification (find_target_group monitor_rooms rid) msg
                    (info\<lparr>last_status := Some cur\<rparr>))\<lparr>last_check_time := Some stamp\<rparr>)"
  by (simp_all add: finish_change_def Let_def map_of_put_room)

lemma status_changed_finish:
  assumes "cur = 1 \<longrightarrow> live_time data \<noteq> None"
  shows "status_changed monitor_rooms aresp rid info cur data stamp st =
           finish_change monitor_rooms rid
             (info\<lparr>live_start_time := (if cur = 1 then live_time data else None)\<rparr>) cur
             (fst (get_anchor_info aresp rid st)
              @ (if cur = 1 then live_started_text @ rid else live_ended_text))
             stamp (snd (get_anchor_info aresp rid st))"
  using assms
  by (cases "get_anchor_info aresp rid st") (auto simp: status_changed_def)

lemma process_result_changed_eq:
  assumes "live_status (res_data res) = Some cur"
    and "cur = 1 \<longrightarrow> live_time (res_data res) \<noteq> None"
    and "map_of (room_status st) (res_room_id res) = Some info"
    and "last_status info = Some old"
    and "cur \<noteq> old"
  shows "process_result monitor_rooms aresp (Returned (Some res)) st =
           finish_change monitor_rooms (res_room_id res)
             (info\<lparr>live_start_time := (if cur = 1 then live_time (res_data res) else None)\<rparr>)
             cur
             (fst (get_anchor_info aresp (res_room_id res) (put_room (res_room_id res) info st))
              @ (if cur = 1 then live_started_text @ res_room_id res else live_ended_text))
             (res_timestamp res)
             (snd (get_anchor_info aresp (res_room_id res) (put_room (res_room_id res) info st)))"
  using assms by (simp add: process_result_def Let_def status_changed_finish)

lemma process_result_changed:
  assumes "live_status (res_data res) = Some cur"
    and "successful_sample res"
    and "stored_status st (res_room_id res) = Some old"
    and "cur \<noteq> old"
  shows "out_event (process_result monitor_rooms aresp (Returned (Some res)) st) \<noteq> None"
    and "out_raised (process_result monitor_rooms aresp (Returned (Some res)) st) = None"
    and "stored_status (out_state (process_result monitor_rooms aresp (Returned (Some res)) st))
           (res_room_id res) = Some cur"
proof -
  obtain info where info: "map_of (room_status st) (res_room_id res) = Some info"
    and old: "last_status info = Some old"
    using assms(3) by (auto simp: stored_status_def split: Option.bind_splits)
  have lt: "cur = 1 \<longrightarrow> live_time (res_data res) \<noteq> None"
    using assms(1,2) by (simp add: successful_sample_def)
  note eq = process_result_changed_eq [OF assms(1) lt info old assms(4)]
  show "out_event (process_result monitor_rooms aresp (Returned (Some res)) st) \<noteq> None"
    by (simp add: eq finish_change_result)
  show "out_raised (process_result monitor_rooms aresp (Returned (Some res)) st) = None"
    by (simp add: eq finish_change_result)
  show "stored_status (out_state (process_result monitor_rooms aresp (Returned (Some res)) st))
           (res_room_id res) = Some cur"
    by (simp add: eq finish_change_result stored_status_def enqueue_notification_fields)
qed

lemma process_result_same:
  assumes "live_status (res_data res) = Some cur"
    and "stored_status st (res_room_id res) = Some cur"
  shows "out_event (process_result monitor_rooms aresp (Returned (Some res)) st) = None"
    and "out_raised (process_result monitor_rooms aresp (Returned (Some res)) st) = None"
    and "stored_status (out_state (process_result monitor_rooms aresp (Returned (Some res)) st))
           (res_room_id res) = Some cur"
proof -
  obtain info where info: "map_of (room_status st) (res_room_id res) = Some info"
    and same: "last_status info = Some cur"
    using assms(2) by (auto simp: stored_status_def split: Option.bind_splits)
  have eq: "process_result monitor_rooms aresp (Returned (Some res)) st =
      \<lparr>out_state =
         put_room (res_room_id res) (info\<lparr>last_check_time := Some (res_timestamp res)\<rparr>)
           (put_room (res_room_id res) info st),
       out_event = None, out_raised = None\<rparr>"
    using assms(1) info same by (simp add: process_result_def Let_def)
  show "out_event (process_result monitor_rooms aresp (Returned (Some res)) st) = None"
    by (simp add: eq)
  show "out_raised (process_result monitor_rooms aresp (Returned (Some res)) st) = None"
    by (simp add: eq)
  show "stored_status (out_state (process_result monitor_rooms aresp (Returned (Some res)) st))
           (res_room_id res) = Some cur"
    using same by (simp add: eq stored_status_def map_of_put_room)
qed


lemma mapped_status_binary:
  "(cur = 0 \<or> cur = 1) \<Longrightarrow> (old = 0 \<or> old = 1) \<Longrightarrow>
   mapped_status cur \<noteq> mapped_status old \<longleftrightarrow> cur \<noteq> old"
  by (auto simp: mapped_status_def)

lemma apply_samples_expected:
  assumes "\<forall>(aresp, res)\<in>set samples.
             res_room_id res = rid \<and> successful_sample res \<and>
             live_status (res_data res) \<in> {Some 0, Some 1}"
    and "stored_status st rid \<in> {None, Some 0, Some 1}"
  shows "apply_samples monitor_rooms samples st =
           expected_events (map_option mapped_status (stored_status st rid))
             (map (\<lambda>(aresp, res). sample_state res) samples)"
  using assms
proof (induction samples arbitrary: st)
  case Nil
  then show ?case by simp
next
  case (Cons x samples)
  obtain aresp res where x: "x = (aresp, res)" by (cases x)
  have rid: "res_room_id res = rid" and ok: "successful_sample res"
    and bin: "live_status (res_data res) \<in> {Some 0, Some 1}"
    using Cons.prems(1) x by auto
  obtain cur where cur: "live_status (res_data res) = Some cur" and cur01: "cur = 0 \<or> cur = 1"
    using bin by auto
  let ?out = "process_result monitor_rooms aresp (Returned (Some res)) st"
  have after: "stored_status (out_state ?out) rid = Some cur"
    and event: "out_event ?out \<noteq> None \<longleftrightarrow>
                  (case stored_status st rid of None \<Rightarrow> False
                   | Some old \<Rightarrow> mapped_status cur \<noteq> mapped_status old)"
  proof -
    consider "stored_status st rid = None"
      | old where "stored_status st rid = Some old" "cur \<noteq> old" "old = 0 \<or> old = 1"
      | "stored_status st rid = Some cur"
      using Cons.prems(2) by (cases "stored_status st rid") auto
    then have "stored_status (out_state ?out) rid = Some cur \<and>
        (out_event ?out \<noteq> None \<longleftrightarrow>
           (case stored_status st rid of None \<Rightarrow> False
            | Some old \<Rightarrow> mapped_status cur \<noteq> mapped_status old))"
    proof cases
      case 1
      then show ?thesis
        using process_result_first [OF cur ok, of st monitor_rooms aresp] rid by simp
    next
      case (2 old)
      then show ?thesis
        using process_result_changed [OF cur ok, of st old monitor_rooms aresp] rid cur01
        by (simp add: mapped_status_binary)
    next
      case 3
      then show ?thesis
        using process_result_same [OF cur, of st monitor_rooms aresp] rid by simp
    qed
    then show "stored_status (out_state ?out) rid = Some cur"
      and "out_event ?out \<noteq> None \<longleftrightarrow>
             (case stored_status st rid of None \<Rightarrow> False
              | Some old \<Rightarrow> mapped_status cur \<noteq> mapped_status old)"
      by simp_all
  qed
  have rest: "\<forall>(aresp, res)\<in>set samples.
             res_room_id res = rid \<and> successful_sample res \<and>
             live_status (res_data res) \<in> {Some 0, Some 1}"
    using Cons.prems(1) by simp
  have next_ok: "stored_status (out_state ?out) rid \<in> {None, Some 0, Some 1}"
    using after cur01 by auto
  have state: "sample_state res = mapped_status cur"
    by (simp add: sample_state_def cur)
  show ?case
    using Cons.IH [OF rest next_ok] event after
    by (cases "stored_status st rid") (simp_all add: x Let_def state)
qed

lemma first_sample_no_event:
  "map_of (room_status st) (res_room_id res) = None \<Longrightarrow>
   out_event (process_result monitor_rooms aresp (Returned (Some res)) st) = None"
  by (simp add: process_result_def first_check_def new_room_info_def Let_def
      split: option.splits)

text \<open>
  C3: for samples of one room whose raw status is 0 or 1, applied one after the
  other to a state whose stored status for the room is absent, 0 or 1, a change
  is reported for a sample exactly when a status is stored before it and the
  mapped status of the sample differs from the stored one; and a sample of a
  room that has no entry yet reports no change, whatever it carries.
\<close>

theorem transition_event_iff:
  "((\<forall>(aresp, res)\<in>set samples.
        res_room_id res = rid \<and> successful_sample res \<and>
        live_status (res_data res) \<in> {Some 0, Some 1}) \<and>
     stored_status st rid \<in> {None, Some 0, Some 1} \<longrightarrow>
     apply_samples monitor_rooms samples st =
       expected_events (map_option mapped_status (stored_status st rid))
         (map (\<lambda>(aresp, res). sample_state res) samples))
   \<and> (map_of (room_status st) (res_room_id first) = None \<longrightarrow>
        out_event (process_result monitor_rooms a (Returned (Some first)) st) = None)"
  using apply_samples_expected [of samples rid st monitor_rooms]
    first_sample_no_event [of st first monitor_rooms a]
  by blast

theorem transition_event_iff_witness:
  "apply_samples [\<lparr>room_id = ascii ''123'', group_id = ascii ''g''\<rparr>]
     [(AnchorFailed, \<lparr>res_room_id = ascii ''123'',
                      res_data = \<lparr>live_status = Some 0, live_time = None\<rparr>,
                      res_timestamp = 1\<rparr>),
      (AnchorFailed, \<lparr>res_room_id = ascii ''123'',
                      res_data = \<lparr>live_status = Some 1, live_time = Some 1700000000\<rparr>,
                      res_timestamp = 2\<rparr>),
      (AnchorFailed, \<lparr>res_room_id = ascii ''123'',
                      res_data = \<lparr>live_status = Some 0, live_time = None\<rparr>,
                      res_timestamp = 3\<rparr>)]
     (initial_state :: nat state) = [False, True, True]
   \<and> out_event (process_result [\<lparr>room_id = ascii ''123'', group_id = ascii ''g''\<rparr>]
        (AnchorJson (Some 0) (Some (ascii ''a'')))
        (Returned (Some \<lparr>res_room_id = ascii ''123'',
                         res_data = \<lparr>live_status = Some 1, live_time = Some 1700000000\<rparr>,
                         res_timestamp = 2\<rparr>))
        (initial_state :: nat state)) = None"
proof -
  let ?samples = "[(AnchorFailed, \<lparr>res_room_id = ascii ''123'',
                      res_data = \<lparr>live_status = Some 0, live_time = None\<rparr>,
                      res_timestamp = 1::nat\<rparr>),
      (AnchorFailed, \<lparr>res_room_id = ascii ''123'',
                      res_data = \<lparr>live_status = Some 1, live_time = Some 1700000000\<rparr>,
                      res_timestamp = 2\<rparr>),
      (AnchorFailed, \<lparr>res_room_id = ascii ''123'',
                      res_data = \<lparr>live_status = Some 0, live_time = None\<rparr>,
                      res_timestamp = 3\<rparr>)]"
  have h1: "\<forall>(aresp, res)\<in>set ?samples.
        res_room_id res = ascii ''123'' \<and> successful_sample res \<and>
        live_status (res_data res) \<in> {Some 0, Some 1}"
    by (simp add: successful_sample_def)
  have h2: "stored_status (initial_state :: nat state) (ascii ''123'') \<in> {None, Some 0, Some 1}"
    by (simp add: stored_status_def initial_state_def)
  have "apply_samples [\<lparr>room_id = ascii ''123'', group_id = ascii ''g''\<rparr>] ?samples
          (initial_state :: nat state) =
        expected_events (map_option mapped_status (stored_status (initial_state :: nat state)
                           (ascii ''123'')))
          (map (\<lambda>(aresp, res). sample_state res) ?samples)"
    using transition_event_iff [where samples = ?samples and rid = "ascii ''123''"
        and st = initial_state] h1 h2
    by blast
  moreover have "out_event (process_result [\<lparr>room_id = ascii ''123'', group_id = ascii ''g''\<rparr>]
        (AnchorJson (Some 0) (Some (ascii ''a'')))
        (Returned (Some \<lparr>res_room_id = ascii ''123'',
                         res_data = \<lparr>live_status = Some 1, live_time = Some 1700000000\<rparr>,
                         res_timestamp = 2\<rparr>))
        (initial_state :: nat state)) = None"
  proof -
    have h3: "map_of (room_status (initial_state :: nat state))
                (res_room_id \<lparr>res_room_id = ascii ''123'',
                   res_data = \<lparr>live_status = Some 1, live_time = Some (1700000000::nat)\<rparr>,
                   res_timestamp = 2::nat\<rparr>) = None"
      by (simp add: initial_state_def)
    show ?thesis
      using transition_event_iff [where st = "initial_state :: nat state"
          and first = "\<lparr>res_room_id = ascii ''123'',
                 res_data = \<lparr>live_status = Some 1, live_time = Some (1700000000::nat)\<rparr>,
                 res_timestamp = 2::nat\<rparr>"
          and monitor_rooms = "[\<lparr>room_id = ascii ''123'', group_id = ascii ''g''\<rparr>]"
          and a = "AnchorJson (Some 0) (Some (ascii ''a''))"] h3
      by blast
  qed
  ultimately show ?thesis
    by (simp add: stored_status_def initial_state_def sample_state_def mapped_status_def)
qed

section \<open>The start time of a room\<close>

lemma set_dict_set: "set (dict_set k v d) \<subseteq> insert (k, v) (set d)"
  by (induction d) (auto split: if_splits)

lemma room_status_put_room:
  "room_status (put_room rid info st) = dict_set rid info (room_status st)"
  by (simp add: put_room_def)

lemma process_result_first_eq:
  assumes "live_status (res_data res) = Some cur"
    and "cur = 1 \<longrightarrow> live_time (res_data res) \<noteq> None"
    and "info = (case map_of (room_status st) (res_room_id res) of
                   None \<Rightarrow> new_room_info | Some i \<Rightarrow> i)"
    and "last_status info = None"
  shows "process_result monitor_rooms aresp (Returned (Some res)) st =
           \<lparr>out_state =
              put_room (res_room_id res)
                (info\<lparr>last_status := Some cur,
                      live_start_time :=
                        (if cur = 1 then live_time (res_data res) else live_start_time info),
                      last_check_time := Some (res_timestamp res)\<rparr>)
                (put_room (res_room_id res) info st),
            out_event = None, out_raised = None\<rparr>"
  using assms by (auto simp: process_result_def first_check_def Let_def)

lemma start_time_consistent_new: "start_time_consistent new_room_info"
  by (simp add: start_time_consistent_def new_room_info_def)

lemma start_time_consistent_without_target:
  "start_time_consistent (without_target g info) = start_time_consistent info"
  by (simp add: start_time_consistent_def without_target_def split: option.splits)

text \<open>One successful sample keeps the entries consistent.\<close>

lemma process_result_consistent:
  assumes all: "\<forall>(k, i)\<in>set (room_status st). start_time_consistent i"
    and ok: "successful_sample res"
  shows "\<forall>(k, i)\<in>set (room_status
            (out_state (process_result monitor_rooms aresp (Returned (Some res)) st))).
           start_time_consistent i"
proof -
  let ?rid = "res_room_id res"
  let ?out = "process_result monitor_rooms aresp (Returned (Some res)) st"
  define info where "info = (case map_of (room_status st) ?rid of
                                None \<Rightarrow> new_room_info | Some i \<Rightarrow> i)"
  obtain cur where cur: "live_status (res_data res) = Some cur"
    and lt: "cur = 1 \<longrightarrow> live_time (res_data res) \<noteq> None"
    using ok by (auto simp: successful_sample_def split: option.splits)
  have info_ok: "start_time_consistent info"
  proof (cases "map_of (room_status st) ?rid")
    case None
    then show ?thesis by (simp add: info_def start_time_consistent_new)
  next
    case (Some i)
    then have "(?rid, i) \<in> set (room_status st)" by (rule map_of_SomeD)
    then show ?thesis using all Some by (auto simp: info_def)
  qed
  have "\<exists>info'. start_time_consistent info' \<and>
          room_status (out_state ?out) = dict_set ?rid info' (dict_set ?rid info (room_status st))"
  proof (cases "last_status info")
    case None
    let ?new = "info\<lparr>last_status := Some cur,
                      live_start_time :=
                        (if cur = 1 then live_time (res_data res) else live_start_time info),
                      last_check_time := Some (res_timestamp res)\<rparr>"
    have "start_time_consistent ?new"
      using info_ok None lt by (auto simp: start_time_consistent_def)
    moreover have "room_status (out_state ?out) =
        dict_set ?rid ?new (dict_set ?rid info (room_status st))"
      using process_result_first_eq [OF cur lt info_def None, of monitor_rooms aresp]
      by (simp add: room_status_put_room)
    ultimately show ?thesis by blast
  next
    case (Some old)
    then have entry: "map_of (room_status st) ?rid = Some info"
      by (auto simp: info_def new_room_info_def split: option.splits)
    show ?thesis
    proof (cases "cur = old")
      case True
      let ?new = "info\<lparr>last_check_time := Some (res_timestamp res)\<rparr>"
      have "start_time_consistent ?new"
        using info_ok by (simp add: start_time_consistent_def)
      moreover have "room_status (out_state ?out) =
          dict_set ?rid ?new (dict_set ?rid info (room_status st))"
        using cur entry Some True
        by (simp add: process_result_def Let_def room_status_put_room)
      ultimately show ?thesis by blast
    next
      case False
      let ?msg = "fst (get_anchor_info aresp ?rid (put_room ?rid info st))
                  @ (if cur = 1 then live_started_text @ ?rid else live_ended_text)"
      let ?new = "(enqueue_notification (find_target_group monitor_rooms ?rid) ?msg
                     (info\<lparr>live_start_time :=
                             (if cur = 1 then live_time (res_data res) else None),
                           last_status := Some cur\<rparr>))
                  \<lparr>last_check_time := Some (res_timestamp res)\<rparr>"
      have "start_time_consistent ?new"
        using lt by (auto simp: start_time_consistent_def enqueue_notification_fields)
      moreover have "room_status (out_state ?out) =
          dict_set ?rid ?new (dict_set ?rid info (room_status st))"
        by (simp add: process_result_changed_eq [OF cur lt entry Some False]
              finish_change_def Let_def room_status_put_room room_status_get_anchor_info)
      ultimately show ?thesis by blast
    qed
  qed
  then obtain info' where new_ok: "start_time_consistent info'"
    and rs: "room_status (out_state ?out) = dict_set ?rid info' (dict_set ?rid info (room_status st))"
    by blast
  have "set (room_status (out_state ?out)) \<subseteq>
          insert (?rid, info') (insert (?rid, info) (set (room_status st)))"
    using set_dict_set [of ?rid info' "dict_set ?rid info (room_status st)"]
      set_dict_set [of ?rid info "room_status st"]
    by (auto simp: rs)
  then show ?thesis
    using all info_ok new_ok by auto
qed

lemma state_after_on_group_message:
  "state_after (on_group_message strftime duration_text monitor_rooms fetch now g inbound st) =
     drained g st"
  by (simp add: on_group_message_def drain_total Let_def split: sum.splits)

lemma reachable_consistent:
  "reachable monitor_rooms st \<Longrightarrow> \<forall>(k, i)\<in>set (room_status st). start_time_consistent i"
proof (induction rule: reachable.induct)
  case start
  then show ?case by (simp add: initial_state_def)
next
  case (sample st result aresp)
  show ?case
  proof (cases result)
    case Raised
    then show ?thesis using sample.IH by (simp add: process_result_failed)
  next
    case (Returned opt)
    show ?thesis
    proof (cases opt)
      case None
      then show ?thesis using sample.IH Returned by (simp add: process_result_failed)
    next
      case (Some res)
      then have "successful_sample res"
        using sample.hyps(2) Returned by simp
      then show ?thesis
        using process_result_consistent [OF sample.IH] Returned Some by simp
    qed
  qed
next
  case (inbound st strftime duration_text fetch now g inbound)
  then show ?case
    by (auto simp: state_after_on_group_message drained_def
          start_time_consistent_without_target)
qed

text \<open>A cycle of failures and successful samples stays among the reachable states.\<close>

lemma process_results_reachable:
  assumes "reachable monitor_rooms st"
    and "\<forall>(a, g)\<in>set items. \<forall>res. g = Returned (Some res) \<longrightarrow> successful_sample res"
  shows "reachable monitor_rooms (fst (process_results monitor_rooms items st))"
  using assms
proof (induction items arbitrary: st)
  case Nil
  then show ?case by simp
next
  case (Cons item items)
  obtain a g where item: "item = (a, g)" by (cases item)
  have step: "reachable monitor_rooms (out_state (process_result monitor_rooms a g st))"
    using Cons.prems item by (intro reachable.sample) auto
  have rest: "\<forall>(a, g)\<in>set items. \<forall>res. g = Returned (Some res) \<longrightarrow> successful_sample res"
    using Cons.prems(2) by simp
  show ?case
    using step Cons.IH [OF step rest]
    by (auto simp: item Let_def split: option.splits prod.splits)
qed

lemma monitor_cycle_reachable:
  assumes "reachable monitor_rooms st"
    and "\<forall>p\<in>set polls. \<forall>rid res.
           check_live_status rid (poll_status p) (poll_now p) = Some res \<longrightarrow>
           successful_sample res"
  shows "reachable monitor_rooms (fst (monitor_cycle monitor_rooms polls st))"
proof -
  have "\<forall>(a, g)\<in>set (cycle_items monitor_rooms polls).
          \<forall>res. g = Returned (Some res) \<longrightarrow> successful_sample res"
  proof (clarify)
    fix a res
    assume "(a, Returned (Some res)) \<in> set (cycle_items monitor_rooms polls)"
    then obtain room p where "(room, p) \<in> set (zip monitor_rooms polls)"
      and chk: "check_live_status (room_id room) (poll_status p) (poll_now p) = Some res"
      by (auto simp: cycle_items_def)
    then have "p \<in> set polls"
      by (auto dest: set_zip_rightD)
    then show "successful_sample res"
      using assms(2) chk by blast
  qed
  then show ?thesis
    using process_results_reachable [OF assms(1)] by (simp add: monitor_cycle_def)
qed

text \<open>
  C4: in every reachable state the start time of a room is set exactly when the
  stored status is 1; and when a room whose stored status is 1 gets a
  successful sample with another status, its entry after that sample has the
  new status and no start time.
\<close>

theorem live_start_time_iff_live:
  assumes "reachable monitor_rooms st"
    and "map_of (room_status st) rid = Some info"
  shows "(live_start_time info \<noteq> None \<longleftrightarrow> last_status info = Some 1)
         \<and> (\<forall>aresp res.
              res_room_id res = rid \<and> successful_sample res \<and> last_status info = Some 1 \<and>
              live_status (res_data res) \<noteq> Some 1 \<longrightarrow>
              (\<exists>info'. map_of (room_status (out_state
                            (process_result monitor_rooms aresp (Returned (Some res)) st))) rid
                          = Some info'
                       \<and> last_status info' = live_status (res_data res)
                       \<and> live_start_time info' = None))"
proof (intro conjI allI impI)
  have "(rid, info) \<in> set (room_status st)"
    using assms(2) by (rule map_of_SomeD)
  then have "start_time_consistent info"
    using reachable_consistent [OF assms(1)] by auto
  then show "live_start_time info \<noteq> None \<longleftrightarrow> last_status info = Some 1"
    by (simp add: start_time_consistent_def)
next
  fix aresp and res :: "'a check_result"
  assume h: "res_room_id res = rid \<and> successful_sample res \<and> last_status info = Some 1 \<and>
             live_status (res_data res) \<noteq> Some 1"
  then obtain cur where cur: "live_status (res_data res) = Some cur" and ne: "cur \<noteq> 1"
    by (auto simp: successful_sample_def split: option.splits)
  have lt: "cur = 1 \<longrightarrow> live_time (res_data res) \<noteq> None"
    using ne by simp
  have entry: "map_of (room_status st) (res_room_id res) = Some info"
    using assms(2) h by simp
  have old: "last_status info = Some 1"
    using h by simp
  show "\<exists>info'. map_of (room_status (out_state
                    (process_result monitor_rooms aresp (Returned (Some res)) st))) rid
                  = Some info'
               \<and> last_status info' = live_status (res_data res)
               \<and> live_start_time info' = None"
    using h ne
    by (simp add: process_result_changed_eq [OF cur lt entry old ne] finish_change_result
          enqueue_notification_fields cur)
qed


theorem live_start_time_iff_live_witness:
  "reachable []
     (out_state (process_result [] AnchorFailed
        (Returned (Some \<lparr>res_room_id = ascii ''123'',
                         res_data = \<lparr>live_status = Some 1, live_time = Some 1700000000\<rparr>,
                         res_timestamp = 5\<rparr>))
        (initial_state :: nat state)))
   \<and> stored_status
        (out_state (process_result [] AnchorFailed
           (Returned (Some \<lparr>res_room_id = ascii ''123'',
                            res_data = \<lparr>live_status = Some 0, live_time = None\<rparr>,
                            res_timestamp = 9\<rparr>))
           (out_state (process_result [] AnchorFailed
              (Returned (Some \<lparr>res_room_id = ascii ''123'',
                               res_data = \<lparr>live_status = Some 1, live_time = Some 1700000000\<rparr>,
                               res_timestamp = 5\<rparr>))
              (initial_state :: nat state)))))
        (ascii ''123'') = Some 0
   \<and> Option.bind
        (map_of (room_status
           (out_state (process_result [] AnchorFailed
              (Returned (Some \<lparr>res_room_id = ascii ''123'',
                               res_data = \<lparr>live_status = Some 0, live_time = None\<rparr>,
                               res_timestamp = 9\<rparr>))
              (out_state (process_result [] AnchorFailed
                 (Returned (Some \<lparr>res_room_id = ascii ''123'',
                                  res_data = \<lparr>live_status = Some 1, live_time = Some 1700000000\<rparr>,
                                  res_timestamp = 5\<rparr>))
                 (initial_state :: nat state))))))
           (ascii ''123''))
        live_start_time = None"
proof -
  let ?live = "\<lparr>res_room_id = ascii ''123'',
                res_data = \<lparr>live_status = Some 1, live_time = Some (1700000000::nat)\<rparr>,
                res_timestamp = 5\<rparr>"
  let ?off = "\<lparr>res_room_id = ascii ''123'',
               res_data = \<lparr>live_status = Some 0, live_time = None :: nat option\<rparr>,
               res_timestamp = 9\<rparr>"
  let ?st = "out_state (process_result [] AnchorFailed (Returned (Some ?live)) initial_state)"
  let ?info = "\<lparr>last_status = Some 1, live_start_time = Some (1700000000::nat),
                last_check_time = Some 5, notifications = None\<rparr>"
  have r: "reachable [] ?st"
    by (rule reachable.sample [OF reachable.start]) (simp add: successful_sample_def)
  have e: "map_of (room_status ?st) (ascii ''123'') = Some ?info"
    by (simp add: process_result_def first_check_def put_room_def new_room_info_def
          initial_state_def Let_def)
  have s: "res_room_id ?off = ascii ''123'' \<and> successful_sample ?off \<and>
           last_status ?info = Some 1 \<and> live_status (res_data ?off) \<noteq> Some 1"
    by (simp add: successful_sample_def)
  have "\<exists>info'. map_of (room_status (out_state
                    (process_result [] AnchorFailed (Returned (Some ?off)) ?st)))
                  (ascii ''123'') = Some info'
               \<and> last_status info' = live_status (res_data ?off)
               \<and> live_start_time info' = None"
    using live_start_time_iff_live [OF r e] s by blast
  then show ?thesis
    using r by (auto simp: stored_status_def)
qed

section \<open>The target of a notification\<close>

lemma find_target_group_first:
  "(case find_target_group monitor_rooms rid of None \<Rightarrow> [] | Some g \<Rightarrow> [g]) =
     take 1 (map group_id (filter (\<lambda>c. room_id c = rid) monitor_rooms))"
  by (induction monitor_rooms) auto

lemma pending_enqueue_target:
  "pending (enqueue_notification tg msg info) =
     pending info
     @ map (\<lambda>g. \<lparr>message = msg, target = g\<rparr>)
         (filter (\<lambda>g. g \<noteq> []) (case tg of None \<Rightarrow> [] | Some g \<Rightarrow> [g]))"
  by (simp add: enqueue_notification_def pending_def split: option.splits)

lemma pending_fields:
  "pending (info\<lparr>last_check_time := t\<rparr>) = pending info"
  "pending (info\<lparr>last_status := s\<rparr>) = pending info"
  "pending (info\<lparr>live_start_time := l\<rparr>) = pending info"
  by (simp_all add: pending_def)

text \<open>
  C1 does not hold: room 1 is listed for group A and for group B; it is seen
  offline, then live. The cycle reports one change, group A gets the message
  and group B gets nothing.
\<close>

theorem notification_targets_counterexample:
  "snd (monitor_cycle
        [\<lparr>room_id = ascii ''1'', group_id = ascii ''A''\<rparr>,
         \<lparr>room_id = ascii ''1'', group_id = ascii ''B''\<rparr>]
        [\<lparr>poll_status = StatusJson (Some 0) (Some \<lparr>live_status = Some 1, live_time = Some 5\<rparr>),
          poll_now = 20, poll_anchor = AnchorJson (Some 0) (Some (ascii ''a''))\<rparr>,
         \<lparr>poll_status = StatusJson (Some 0) (Some \<lparr>live_status = Some 1, live_time = Some 5\<rparr>),
          poll_now = 20, poll_anchor = AnchorJson (Some 0) (Some (ascii ''a''))\<rparr>]
        (fst (monitor_cycle
           [\<lparr>room_id = ascii ''1'', group_id = ascii ''A''\<rparr>,
            \<lparr>room_id = ascii ''1'', group_id = ascii ''B''\<rparr>]
           [\<lparr>poll_status = StatusJson (Some 0) (Some \<lparr>live_status = Some 0, live_time = None\<rparr>),
             poll_now = 10, poll_anchor = AnchorFailed\<rparr>,
            \<lparr>poll_status = StatusJson (Some 0) (Some \<lparr>live_status = Some 0, live_time = None\<rparr>),
             poll_now = 10, poll_anchor = AnchorFailed\<rparr>]
           (initial_state :: nat state))))
     = [ascii ''a'' @ live_started_text @ ascii ''1'']
   \<and> map_sum id fst (drain (ascii ''A'')
     (fst (monitor_cycle
        [\<lparr>room_id = ascii ''1'', group_id = ascii ''A''\<rparr>,
         \<lparr>room_id = ascii ''1'', group_id = ascii ''B''\<rparr>]
        [\<lparr>poll_status = StatusJson (Some 0) (Some \<lparr>live_status = Some 1, live_time = Some 5\<rparr>),
          poll_now = 20, poll_anchor = AnchorJson (Some 0) (Some (ascii ''a''))\<rparr>,
         \<lparr>poll_status = StatusJson (Some 0) (Some \<lparr>live_status = Some 1, live_time = Some 5\<rparr>),
          poll_now = 20, poll_anchor = AnchorJson (Some 0) (Some (ascii ''a''))\<rparr>]
        (fst (monitor_cycle
           [\<lparr>room_id = ascii ''1'', group_id = ascii ''A''\<rparr>,
            \<lparr>room_id = ascii ''1'', group_id = ascii ''B''\<rparr>]
           [\<lparr>poll_status = StatusJson (Some 0) (Some \<lparr>live_status = Some 0, live_time = None\<rparr>),
             poll_now = 10, poll_anchor = AnchorFailed\<rparr>,
            \<lparr>poll_status = StatusJson (Some 0) (Some \<lparr>live_status = Some 0, live_time = None\<rparr>),
             poll_now = 10, poll_anchor = AnchorFailed\<rparr>]
           (initial_state :: nat state))))))
     = Inr [ascii ''a'' @ live_started_text @ ascii ''1'']
   \<and> map_sum id fst (drain (ascii ''B'')
     (fst (monitor_cycle
        [\<lparr>room_id = ascii ''1'', group_id = ascii ''A''\<rparr>,
         \<lparr>room_id = ascii ''1'', group_id = ascii ''B''\<rparr>]
        [\<lparr>poll_status = StatusJson (Some 0) (Some \<lparr>live_status = Some 1, live_time = Some 5\<rparr>),
          poll_now = 20, poll_anchor = AnchorJson (Some 0) (Some (ascii ''a''))\<rparr>,
         \<lparr>poll_status = StatusJson (Some 0) (Some \<lparr>live_status = Some 1, live_time = Some 5\<rparr>),
          poll_now = 20, poll_anchor = AnchorJson (Some 0) (Some (ascii ''a''))\<rparr>]
        (fst (monitor_cycle
           [\<lparr>room_id = ascii ''1'', group_id = ascii ''A''\<rparr>,
            \<lparr>room_id = ascii ''1'', group_id = ascii ''B''\<rparr>]
           [\<lparr>poll_status = StatusJson (Some 0) (Some \<lparr>live_status = Some 0, live_time = None\<rparr>),
             poll_now = 10, poll_anchor = AnchorFailed\<rparr>,
            \<lparr>poll_status = StatusJson (Some 0) (Some \<lparr>live_status = Some 0, live_time = None\<rparr>),
             poll_now = 10, poll_anchor = AnchorFailed\<rparr>]
           (initial_state :: nat state))))))
     = Inr []"
  by (simp add: monitor_cycle_def cycle_items_def check_live_status_def process_result_def
        first_check_def status_changed_def finish_change_def enqueue_notification_def
        get_anchor_info_def put_room_def new_room_info_def initial_state_def Let_def
        drain_def py_remove_def ascii_def)

text \<open>
  C1, amended: a sample of room \<open>r\<close> that changes the stored status reports one
  message and puts it once at the end of the room's notifications, addressed to
  the group of the first entry of the registry whose room is \<open>r\<close>, provided that
  group is not the empty string; the further entries of \<open>r\<close> get nothing, and no
  other room's entry changes.
\<close>

theorem transition_enqueues_first_target:
  assumes "map_of (room_status st) (res_room_id res) = Some info"
    and "last_status info = Some old"
    and "live_status (res_data res) = Some cur"
    and "cur \<noteq> old"
    and "cur = 1 \<longrightarrow> live_time (res_data res) \<noteq> None"
  shows "\<exists>msg info'.
           out_event (process_result monitor_rooms aresp (Returned (Some res)) st) = Some msg
           \<and> map_of (room_status (out_state
                  (process_result monitor_rooms aresp (Returned (Some res)) st)))
               (res_room_id res) = Some info'
           \<and> pending info' =
               pending info
               @ map (\<lambda>g. \<lparr>message = msg, target = g\<rparr>)
                   (filter (\<lambda>g. g \<noteq> [])
                      (take 1 (map group_id
                         (filter (\<lambda>c. room_id c = res_room_id res) monitor_rooms))))
           \<and> (\<forall>r. r \<noteq> res_room_id res \<longrightarrow>
                 map_of (room_status (out_state
                    (process_result monitor_rooms aresp (Returned (Some res)) st))) r =
                 map_of (room_status st) r)"
proof -
  have other: "\<forall>r. r \<noteq> res_room_id res \<longrightarrow>
                 map_of (room_status (out_state
                    (process_result monitor_rooms aresp (Returned (Some res)) st))) r =
                 map_of (room_status st) r"
    by (auto intro!: process_result_other)
  show ?thesis
    using other
    by (simp add: process_result_changed_eq [OF assms(3) assms(5) assms(1) assms(2) assms(4)]
          finish_change_result pending_enqueue_target pending_fields
          find_target_group_first)
qed


theorem transition_enqueues_first_target_witness:
  "map_option pending
     (map_of (room_status (out_state
        (process_result
           [\<lparr>room_id = ascii ''1'', group_id = ascii ''A''\<rparr>,
            \<lparr>room_id = ascii ''1'', group_id = ascii ''B''\<rparr>]
           (AnchorJson (Some 0) (Some (ascii ''a'')))
           (Returned (Some \<lparr>res_room_id = ascii ''1'',
                            res_data = \<lparr>live_status = Some 1, live_time = Some 5\<rparr>,
                            res_timestamp = 20\<rparr>))
           \<lparr>room_status =
              [(ascii ''1'',
                \<lparr>last_status = Some 0, live_start_time = None, last_check_time = Some (10::nat),
                 notifications = None\<rparr>)],
            anchor_names = Map.empty\<rparr>)))
        (ascii ''1''))
   = Some [\<lparr>message = ascii ''a'' @ live_started_text @ ascii ''1'', target = ascii ''A''\<rparr>]"
proof -
  let ?rooms = "[\<lparr>room_id = ascii ''1'', group_id = ascii ''A''\<rparr>,
                 \<lparr>room_id = ascii ''1'', group_id = ascii ''B''\<rparr>]"
  let ?res = "\<lparr>res_room_id = ascii ''1'',
               res_data = \<lparr>live_status = Some 1, live_time = Some (5::nat)\<rparr>,
               res_timestamp = 20\<rparr>"
  let ?info = "\<lparr>last_status = Some 0, live_start_time = None, last_check_time = Some (10::nat),
                notifications = None\<rparr>"
  let ?st = "\<lparr>room_status = [(ascii ''1'', ?info)], anchor_names = Map.empty\<rparr>"
  let ?out = "process_result ?rooms (AnchorJson (Some 0) (Some (ascii ''a'')))
                (Returned (Some ?res)) ?st"
  have h1: "map_of (room_status ?st) (res_room_id ?res) = Some ?info" by simp
  have h2: "last_status ?info = Some 0" by simp
  have h3: "live_status (res_data ?res) = Some 1" by simp
  have h4: "(1::int) \<noteq> 0" by simp
  have h5: "(1::int) = 1 \<longrightarrow> live_time (res_data ?res) \<noteq> None" by simp
  obtain msg info' where ev: "out_event ?out = Some msg"
    and entry: "map_of (room_status (out_state ?out)) (res_room_id ?res) = Some info'"
    and queue: "pending info' =
                  pending ?info
                  @ map (\<lambda>g. \<lparr>message = msg, target = g\<rparr>)
                      (filter (\<lambda>g. g \<noteq> [])
                         (take 1 (map group_id
                            (filter (\<lambda>c. room_id c = res_room_id ?res) ?rooms))))"
    using transition_enqueues_first_target [OF h1 h2 h3 h4 h5,
        of ?rooms "AnchorJson (Some 0) (Some (ascii ''a''))"]
    by blast
  have "out_event ?out = Some (ascii ''a'' @ live_started_text @ ascii ''1'')"
    by (simp add: process_result_def status_changed_def finish_change_def get_anchor_info_def
          put_room_def Let_def)
  then have msg: "msg = ascii ''a'' @ live_started_text @ ascii ''1''"
    using ev by simp
  have "pending info' = [\<lparr>message = msg, target = ascii ''A''\<rparr>]"
    using queue by (simp add: pending_def ascii_def)
  then show ?thesis
    using entry msg by simp
qed

end
